theory Spec2Isabelle
  imports Main "HOL-Library.Char_ord" "HOL-Library.List_Lexorder"
begin

section \<open>JavaScript values, errors and the page state\<close>

text \<open>
  The front-end scripts are asynchronous JavaScript. A call of an \<^verbatim>\<open>async\<close> function
  is modelled by its effect on the page state together with its completion: \<open>Inr v\<close>
  when the promise is fulfilled with \<open>v\<close>, \<open>Inl e\<close> when it is rejected (an exception
  was thrown). A thrown value is an \<^verbatim>\<open>Error\<close> object, with a name and a message, or
  any other value (\<^verbatim>\<open>throw null\<close>, \<^verbatim>\<open>Promise.reject()\<close>).

  Console messages are Chinese text in the source; they are given here in English,
  since only their place in the control flow matters.
\<close>

datatype jsval =
    JUndefined
  | JNull
  | JBool bool
  | JNum int
  | JStr string
  | JArr "jsval list"
  | JObj "(string \<times> jsval) list"

datatype js_error =
    JsError (ename: string) (message: string)
  | ThrownValue jsval

type_synonym 'a completion = "js_error + 'a"

datatype console_entry =
    ConsoleLog string
  | ConsoleError string js_error

text \<open>
  Code that is not part of these scripts (the page's loader functions, registered
  callbacks, the network) acts on an opaque world \<open>'w\<close> and completes with a value or
  an error.
\<close>

type_synonym 'w extern = "'w \<Rightarrow> 'w \<times> jsval completion"

text \<open>The truthiness test of JavaScript (\<^verbatim>\<open>x ? a : b\<close>, \<^verbatim>\<open>x || y\<close>) on the modelled values.\<close>

fun truthy :: "jsval \<Rightarrow> bool" where
  "truthy JUndefined = False"
| "truthy JNull = False"
| "truthy (JBool b) = b"
| "truthy (JNum n) = (n \<noteq> 0)"
| "truthy (JStr s) = (s \<noteq> [])"
| "truthy (JArr _) = True"
| "truthy (JObj _) = True"

subsection \<open>The three singletons and the window\<close>

text \<open>\<^verbatim>\<open>class OnDemandRefresh\<close> (constructor, part_000 lines 6-10).\<close>

record OnDemandRefresh =
  isRefreshing :: bool
  lastRefreshTime :: "string \<rightharpoonup> int"
  refreshCooldown :: int

text \<open>
  \<^verbatim>\<open>class RealtimeSync\<close> (realtime-sync.js lines 7-11). An operation id is the string
  \<^verbatim>\<open>`${operationType}_${Date.now()}`\<close>; it is kept as the pair of its two parts (the
  text after the last underscore is the decimal timestamp, so the pair and the string
  determine each other).
\<close>

type_synonym operation_id = "string \<times> int"

record 'w RealtimeSync =
  pendingOperations :: "operation_id set"
  syncCallbacks :: "string \<rightharpoonup> (jsval \<Rightarrow> 'w extern) list"
  isEnabled :: bool

text \<open>
  \<^verbatim>\<open>class InstantResponse\<close> (part_001 lines 6-9). A stored rollback function is either
  the closure built by \<^verbatim>\<open>wrapApiForInstantResponse\<close> (lines 183-188) or a function
  of the caller. The key of \<^verbatim>\<open>optimisticUpdates\<close> is \<^verbatim>\<open>Date.now().toString()\<close>, kept as
  the number.
\<close>

datatype 'w rollback =
    RollbackRefreshCurrentSection
  | RollbackExtern "'w extern"

record 'w optimistic_update =
  rollbackFunction :: "'w rollback option"
  ou_result :: jsval

record 'w InstantResponse =
  pendingOperationsMap :: "string \<rightharpoonup> jsval"
  optimisticUpdates :: "int \<rightharpoonup> 'w optimistic_update"

text \<open>
  The global state of a page: \<^verbatim>\<open>window.onDemandRefresh\<close>, \<^verbatim>\<open>window.realtimeSync\<close>,
  \<^verbatim>\<open>window.instantResponse\<close>, \<^verbatim>\<open>localStorage\<close>, \<^verbatim>\<open>window.location.href\<close>, the
  console, and the world outside the scripts. An \<^verbatim>\<open>async\<close> call that its caller does not
  \<^verbatim>\<open>await\<close> is recorded in \<open>spawned\<close>: it runs on its own after the caller has gone on.
\<close>

datatype spawned_call =
    SpawnedBackgroundSync int string
  | SpawnedRefreshCurrentSection

record 'w window =
  onDemandRefresh :: OnDemandRefresh
  realtimeSync :: "'w RealtimeSync"
  instantResponse :: "'w InstantResponse"
  localStorage :: "string \<rightharpoonup> string"
  location_href :: string
  console :: "console_entry list"
  spawned :: "spawned_call list"
  world :: 'w

text \<open>
  What the scripts use from their surroundings: the clock, timers, \<^verbatim>\<open>fetch\<close> (with the
  \<^verbatim>\<open>Response\<close> it resolves to: its status, its \<^verbatim>\<open>ok\<close> flag and the outcome of
  \<^verbatim>\<open>response.json()\<close>), \<^verbatim>\<open>JSON.stringify\<close>, the conversion of a value to a string, the
  global loader functions (\<open>None\<close> when \<^verbatim>\<open>typeof f === 'function'\<close> is false), the DOM
  queries, and whether \<^verbatim>\<open>window.onDemandRefresh\<close> has been installed.
\<close>

record response =
  status :: int
  ok :: bool
  json :: "jsval completion"

record request_init =
  req_method :: "string option"
  req_body :: "string option"
  req_headers :: "(string \<times> string) list option"

record 'w env =
  Date_now :: "'w \<Rightarrow> 'w \<times> int"
  sleep :: "int \<Rightarrow> 'w \<Rightarrow> 'w"
  fetch :: "string \<Rightarrow> request_init \<Rightarrow> 'w \<Rightarrow> 'w \<times> response completion"
  JSON_stringify :: "jsval \<Rightarrow> string"
  String_of :: "jsval \<Rightarrow> string"
  loadRegistrations :: "'w extern option"
  loadDepartments :: "'w extern option"
  loadProfile :: "'w extern option"
  loadDoctors :: "'w extern option"
  onDeptSelect :: "'w extern option"
  activeSectionId :: "'w \<Rightarrow> string option"
  deptSelectValue :: "'w \<Rightarrow> bool"
  onDemandRefreshInstalled :: bool

definition console_log :: "string \<Rightarrow> 'w window \<Rightarrow> 'w window" where
  "console_log msg s = s\<lparr>console := console s @ [ConsoleLog msg]\<rparr>"

definition console_error :: "string \<Rightarrow> js_error \<Rightarrow> 'w window \<Rightarrow> 'w window" where
  "console_error msg e s = s\<lparr>console := console s @ [ConsoleError msg e]\<rparr>"

text \<open>Calling an outside function from the page: only the world changes.\<close>

definition call_extern :: "'w extern \<Rightarrow> 'w window \<Rightarrow> 'w window \<times> jsval completion" where
  "call_extern f s = (let (w', r) = f (world s) in (s\<lparr>world := w'\<rparr>, r))"

text \<open>\<^verbatim>\<open>if (typeof f === 'function') { await f(); }\<close>\<close>

definition call_if_function :: "'w extern option \<Rightarrow> 'w window \<Rightarrow> 'w window \<times> jsval completion" where
  "call_if_function f s = (case f of None \<Rightarrow> (s, Inr JUndefined) | Some g \<Rightarrow> call_extern g s)"

definition date_now :: "'w env \<Rightarrow> 'w window \<Rightarrow> 'w window \<times> int" where
  "date_now env s = (let (w', t) = Date_now env (world s) in (s\<lparr>world := w'\<rparr>, t))"

text \<open>The string form of a value, as string concatenation, a template literal and
  \<^verbatim>\<open>new Error(v)\<close> take it.\<close>

definition error_message :: "'w env \<Rightarrow> jsval \<Rightarrow> string" where
  "error_message env v = (case v of JStr m \<Rightarrow> m | _ \<Rightarrow> String_of env v)"

text \<open>
  \<^verbatim>\<open>error.message\<close> in a \<^verbatim>\<open>catch\<close> block, followed by its use in a string. Reading a
  property of \<^verbatim>\<open>null\<close> or \<^verbatim>\<open>undefined\<close> throws a TypeError; a value without the
  property gives \<^verbatim>\<open>undefined\<close>.
\<close>

definition read_message :: "'w env \<Rightarrow> js_error \<Rightarrow> string completion" where
  "read_message env error =
     (case error of
        JsError n m \<Rightarrow> Inr m
      | ThrownValue v \<Rightarrow>
          (case v of
             JNull \<Rightarrow> Inl (JsError ''TypeError'' ''Cannot read properties of null (reading message)'')
           | JUndefined \<Rightarrow>
               Inl (JsError ''TypeError'' ''Cannot read properties of undefined (reading message)'')
           | JObj props \<Rightarrow>
               Inr (case map_of props ''message'' of
                      None \<Rightarrow> ''undefined''
                    | Some m \<Rightarrow> error_message env m)
           | _ \<Rightarrow> Inr ''undefined''))"

section \<open>OnDemandRefresh (part_000)\<close>

definition set_isRefreshing :: "bool \<Rightarrow> 'w window \<Rightarrow> 'w window" where
  "set_isRefreshing b s = s\<lparr>onDemandRefresh := (onDemandRefresh s)\<lparr>isRefreshing := b\<rparr>\<rparr>"

text \<open>Lines 13-17. \<^verbatim>\<open>get(sectionName) || 0\<close>: a missing entry reads as 0.\<close>

definition shouldRefresh :: "'w env \<Rightarrow> string \<Rightarrow> 'w window \<Rightarrow> 'w window \<times> bool" where
  "shouldRefresh env sectionName s =
     (let lastTime = (case lastRefreshTime (onDemandRefresh s) sectionName of
                        None \<Rightarrow> 0 | Some t \<Rightarrow> t);
          (s1, now) = date_now env s
      in (s1, now - lastTime > refreshCooldown (onDemandRefresh s1)))"

text \<open>Lines 20-22.\<close>

definition recordRefresh :: "'w env \<Rightarrow> string \<Rightarrow> 'w window \<Rightarrow> 'w window" where
  "recordRefresh env sectionName s =
     (let (s1, now) = date_now env s
      in s1\<lparr>onDemandRefresh := (onDemandRefresh s1)
               \<lparr>lastRefreshTime := (lastRefreshTime (onDemandRefresh s1))(sectionName \<mapsto> now)\<rparr>\<rparr>)"

text \<open>\<^verbatim>\<open>String.prototype.replace(pattern, replacement)\<close> with a string pattern: the first
  occurrence only.\<close>

fun replace_first :: "string \<Rightarrow> string \<Rightarrow> string \<Rightarrow> string" where
  "replace_first pat rep [] = (if pat = [] then rep else [])"
| "replace_first pat rep (c # cs) =
     (if take (length pat) (c # cs) = pat then rep @ drop (length pat) (c # cs)
      else c # replace_first pat rep cs)"

text \<open>Lines 72-78.\<close>

definition getCurrentSection :: "'w env \<Rightarrow> 'w window \<Rightarrow> string" where
  "getCurrentSection env s =
     (case activeSectionId env (world s) of
        Some i \<Rightarrow> replace_first ''section-'' '''' i
      | None \<Rightarrow> ''booking'')"

text \<open>
  Lines 59-69. \<^verbatim>\<open>refreshMap[actionType] || []\<close> is a property lookup on an object
  literal: an action type that names a property inherited from \<^verbatim>\<open>Object.prototype\<close>
  yields that inherited value, which is truthy and not iterable, so the \<^verbatim>\<open>for...of\<close>
  of the caller throws a TypeError. That case is the \<open>Inl\<close> result.
\<close>

definition Object_prototype_keys :: "string list" where
  "Object_prototype_keys =
     [''constructor'', ''toString'', ''toLocaleString'', ''valueOf'', ''hasOwnProperty'',
      ''isPrototypeOf'', ''propertyIsEnumerable'', ''__proto__'', ''__defineGetter__'',
      ''__defineSetter__'', ''__lookupGetter__'', ''__lookupSetter__'']"

definition getSectionsToRefresh :: "'w env \<Rightarrow> string \<Rightarrow> string option \<Rightarrow> 'w window \<Rightarrow> string list completion" where
  "getSectionsToRefresh env actionType targetSection s =
     (if actionType = ''create_registration'' then Inr [''myRegistrations'', ''booking'']
      else if actionType = ''cancel_registration'' then Inr [''myRegistrations'']
      else if actionType = ''update_profile'' then Inr [''profile'']
      else if actionType = ''manual_refresh'' then
        Inr [case targetSection of
               Some t \<Rightarrow> (if t \<noteq> [] then t else getCurrentSection env s)
             | None \<Rightarrow> getCurrentSection env s]
      else if actionType = ''section_switch'' then Inr []
      else if actionType \<in> set Object_prototype_keys then
        Inl (JsError ''TypeError'' ''sectionsToRefresh is not iterable'')
      else Inr [])"

text \<open>Lines 153-156, 135-145 and 148-150: toasts are disabled and only logged.\<close>

definition showToast :: "string \<Rightarrow> string \<Rightarrow> 'w window \<Rightarrow> 'w window" where
  "showToast msg type s = console_log (''Toast: '' @ msg @ '' ('' @ type @ '')'') s"

definition showRefreshComplete :: "string \<Rightarrow> 'w window \<Rightarrow> 'w window" where
  "showRefreshComplete actionType s =
     showToast
       (if actionType = ''create_registration'' then ''registration created, data updated''
        else if actionType = ''cancel_registration'' then ''registration cancelled, data updated''
        else if actionType = ''update_profile'' then ''profile updated''
        else if actionType = ''manual_refresh'' then ''data refreshed''
        else if actionType \<in> set Object_prototype_keys then ''[inherited property]''
        else ''operation complete'')
       ''success'' s"

definition showRefreshError :: "string \<Rightarrow> 'w window \<Rightarrow> 'w window" where
  "showRefreshError errorMessage s = showToast (''refresh failed: '' @ errorMessage) ''error'' s"

text \<open>
  Lines 94-132. The \<^verbatim>\<open>switch\<close> runs inside \<^verbatim>\<open>try\<close>; the \<^verbatim>\<open>catch\<close> logs and rethrows.
\<close>

definition refreshSection_switch :: "'w env \<Rightarrow> string \<Rightarrow> 'w window \<Rightarrow> 'w window \<times> jsval completion" where
  "refreshSection_switch env sectionName s =
     (if sectionName = ''myRegistrations'' then
        (case call_if_function (loadRegistrations env) s of
           (s1, Inl e) \<Rightarrow> (s1, Inl e)
         | (s1, Inr _) \<Rightarrow> (s1, Inr JUndefined))
      else if sectionName = ''booking'' then
        (case call_if_function (loadDepartments env) s of
           (s1, Inl e) \<Rightarrow> (s1, Inl e)
         | (s1, Inr _) \<Rightarrow>
             (if deptSelectValue env (world s1) then
                (case call_if_function (onDeptSelect env) s1 of
                   (s2, Inl e) \<Rightarrow> (s2, Inl e)
                 | (s2, Inr _) \<Rightarrow> (s2, Inr JUndefined))
              else (s1, Inr JUndefined)))
      else if sectionName = ''profile'' then
        (case call_if_function (loadProfile env) s of
           (s1, Inl e) \<Rightarrow> (s1, Inl e)
         | (s1, Inr _) \<Rightarrow> (s1, Inr JUndefined))
      else (console_log (''unknown section: '' @ sectionName) s, Inr JUndefined))"

definition refreshSection :: "'w env \<Rightarrow> string \<Rightarrow> 'w window \<Rightarrow> 'w window \<times> jsval completion" where
  "refreshSection env sectionName s =
     (case refreshSection_switch env sectionName (console_log (''refresh section: '' @ sectionName) s) of
        (s1, Inl e) \<Rightarrow> (console_error (''refreshing '' @ sectionName @ '' failed'') e s1, Inl e)
      | (s1, Inr v) \<Rightarrow> (s1, Inr v))"

text \<open>Lines 81-91: the failure of the refresh is caught and logged.\<close>

definition refreshCurrentSection :: "'w env \<Rightarrow> 'w window \<Rightarrow> 'w window \<times> jsval completion" where
  "refreshCurrentSection env s =
     (let currentSection = getCurrentSection env s;
          s1 = console_log (''refresh current section: '' @ currentSection) s
      in case refreshSection env currentSection s1 of
           (s2, Inr _) \<Rightarrow> (recordRefresh env currentSection s2, Inr JUndefined)
         | (s2, Inl e) \<Rightarrow> (console_error ''refreshing the current section failed'' e s2, Inr JUndefined))"

text \<open>Lines 40-45: the loop over the sections; the first failure leaves the loop.\<close>

fun refreshSections :: "'w env \<Rightarrow> string list \<Rightarrow> 'w window \<Rightarrow> 'w window \<times> jsval completion" where
  "refreshSections env [] s = (s, Inr JUndefined)"
| "refreshSections env (section # rest) s =
     (case shouldRefresh env section s of
        (s1, True) \<Rightarrow>
          (case refreshSection env section s1 of
             (s2, Inl e) \<Rightarrow> (s2, Inl e)
           | (s2, Inr _) \<Rightarrow> refreshSections env rest (recordRefresh env section s2))
      | (s1, False) \<Rightarrow> refreshSections env rest s1)"

text \<open>Lines 33-48: the body of the \<^verbatim>\<open>try\<close> block.\<close>

definition refreshAfterUserAction_try :: "'w env \<Rightarrow> string \<Rightarrow> string option \<Rightarrow> 'w window \<Rightarrow> 'w window \<times> jsval completion" where
  "refreshAfterUserAction_try env actionType targetSection s =
     (let s1 = console_log (''refresh after user action: '' @ actionType) s
      in case getSectionsToRefresh env actionType targetSection s1 of
           Inl e \<Rightarrow> (s1, Inl e)
         | Inr sectionsToRefresh \<Rightarrow>
             (case refreshSections env sectionsToRefresh s1 of
                (s2, Inl e) \<Rightarrow> (s2, Inl e)
              | (s2, Inr _) \<Rightarrow> (showRefreshComplete actionType s2, Inr JUndefined)))"

text \<open>
  Lines 25-56: the guard, then \<^verbatim>\<open>try\<close>, \<^verbatim>\<open>catch\<close> and \<^verbatim>\<open>finally\<close>. When reading
  \<^verbatim>\<open>error.message\<close> on line 52 throws, the \<^verbatim>\<open>finally\<close> block still runs and the
  TypeError leaves the function.
\<close>

definition refreshAfterUserAction :: "'w env \<Rightarrow> string \<Rightarrow> string option \<Rightarrow> 'w window \<Rightarrow> 'w window \<times> jsval completion" where
  "refreshAfterUserAction env actionType targetSection s =
     (if isRefreshing (onDemandRefresh s) then
        (console_log ''refresh in progress, skipping duplicate refresh'' s, Inr JUndefined)
      else
        (case refreshAfterUserAction_try env actionType targetSection (set_isRefreshing True s) of
           (s1, Inr _) \<Rightarrow> (set_isRefreshing False s1, Inr JUndefined)
         | (s1, Inl error) \<Rightarrow>
             (let s2 = console_error ''refresh failed'' error s1
              in case read_message env error of
                   Inl typeError \<Rightarrow> (set_isRefreshing False s2, Inl typeError)
                 | Inr errorMessage \<Rightarrow>
                     (set_isRefreshing False (showRefreshError errorMessage s2), Inr JUndefined))))"

text \<open>Lines 206-209.\<close>

definition manualRefresh :: "'w env \<Rightarrow> 'w window \<Rightarrow> 'w window \<times> jsval completion" where
  "manualRefresh env s = refreshAfterUserAction env ''manual_refresh'' (Some (getCurrentSection env s)) s"

section \<open>RealtimeSync (realtime-sync.js)\<close>

text \<open>A function passed as an argument (\<^verbatim>\<open>apiCall\<close>, \<^verbatim>\<open>refreshCallback\<close>, the wrapped
  \<^verbatim>\<open>apiRequest\<close>) may do anything to the page.\<close>

type_synonym 'w action = "'w window \<Rightarrow> 'w window \<times> jsval completion"

text \<open>Lines 14-19.\<close>

definition registerCallback :: "string \<Rightarrow> (jsval \<Rightarrow> 'w extern) \<Rightarrow> 'w window \<Rightarrow> 'w window" where
  "registerCallback operation callback s =
     (let cbs = (case syncCallbacks (realtimeSync s) operation of None \<Rightarrow> [] | Some l \<Rightarrow> l)
      in s\<lparr>realtimeSync := (realtimeSync s)
              \<lparr>syncCallbacks := (syncCallbacks (realtimeSync s))(operation \<mapsto> cbs @ [callback])\<rparr>\<rparr>)"

text \<open>Lines 80-83: status popups are disabled and only logged.\<close>

definition showOperationStatus :: "string \<Rightarrow> string \<Rightarrow> 'w window \<Rightarrow> 'w window" where
  "showOperationStatus msg type s = console_log (''operation status: '' @ msg @ '' ('' @ type @ '')'') s"

text \<open>Lines 62-65: no waiting at all.\<close>

definition waitForSync :: "int \<Rightarrow> 'w action" where
  "waitForSync timeout s = (s, Inr JUndefined)"

text \<open>Lines 68-77: each callback is awaited inside its own \<^verbatim>\<open>try\<close>.\<close>

fun triggerCallbacks_loop :: "(jsval \<Rightarrow> 'w extern) list \<Rightarrow> jsval \<Rightarrow> 'w window \<Rightarrow> 'w window" where
  "triggerCallbacks_loop [] result s = s"
| "triggerCallbacks_loop (callback # callbacks) result s =
     (case call_extern (callback result) s of
        (s1, Inr _) \<Rightarrow> triggerCallbacks_loop callbacks result s1
      | (s1, Inl error) \<Rightarrow>
          triggerCallbacks_loop callbacks result (console_error ''callback failed'' error s1))"

definition triggerCallbacks :: "string \<Rightarrow> jsval \<Rightarrow> 'w action" where
  "triggerCallbacks operation result s =
     (let callbacks = (case syncCallbacks (realtimeSync s) operation of None \<Rightarrow> [] | Some l \<Rightarrow> l)
      in (triggerCallbacks_loop callbacks result s, Inr JUndefined))"

definition add_pending :: "operation_id \<Rightarrow> 'w window \<Rightarrow> 'w window" where
  "add_pending operationId s =
     s\<lparr>realtimeSync := (realtimeSync s)
         \<lparr>pendingOperations := insert operationId (pendingOperations (realtimeSync s))\<rparr>\<rparr>"

definition delete_pending :: "operation_id \<Rightarrow> 'w window \<Rightarrow> 'w window" where
  "delete_pending operationId s =
     s\<lparr>realtimeSync := (realtimeSync s)
         \<lparr>pendingOperations := pendingOperations (realtimeSync s) - {operationId}\<rparr>\<rparr>"

text \<open>Lines 30-52: the body of the \<^verbatim>\<open>try\<close> block.\<close>

definition executeOperation_try ::
  "string \<Rightarrow> operation_id \<Rightarrow> 'w action \<Rightarrow> 'w action option \<Rightarrow> 'w action" where
  "executeOperation_try operationType operationId apiCall refreshCallback s =
     (case apiCall (showOperationStatus ''in progress...'' ''info'' s) of
        (s1, Inl e) \<Rightarrow> (s1, Inl e)
      | (s1, Inr result) \<Rightarrow>
          (case waitForSync 0 s1 of
             (s2, Inl e) \<Rightarrow> (s2, Inl e)
           | (s2, Inr _) \<Rightarrow>
               (case (case refreshCallback of
                        None \<Rightarrow> (s2, Inr JUndefined)
                      | Some refresh \<Rightarrow> refresh s2) of
                  (s3, Inl e) \<Rightarrow> (s3, Inl e)
                | (s3, Inr _) \<Rightarrow>
                    (case triggerCallbacks operationType result s3 of
                       (s4, Inl e) \<Rightarrow> (s4, Inl e)
                     | (s4, Inr _) \<Rightarrow>
                         (delete_pending operationId
                            (showOperationStatus ''operation succeeded, data updated'' ''success'' s4),
                          Inr result)))))"

text \<open>Lines 22-59. In the \<^verbatim>\<open>catch\<close> block the id is deleted before \<^verbatim>\<open>error.message\<close>
  is read; when that read throws, its TypeError is what the call rejects with.\<close>

definition executeOperation ::
  "'w env \<Rightarrow> string \<Rightarrow> 'w action \<Rightarrow> 'w action option \<Rightarrow> 'w action" where
  "executeOperation env operationType apiCall refreshCallback s =
     (if \<not> isEnabled (realtimeSync s) then apiCall s
      else
        let (s0, now) = date_now env s;
            operationId = (operationType, now)
        in case executeOperation_try operationType operationId apiCall refreshCallback
                  (add_pending operationId s0) of
             (s1, Inr result) \<Rightarrow> (s1, Inr result)
           | (s1, Inl error) \<Rightarrow>
               (let s2 = delete_pending operationId s1
                in case read_message env error of
                     Inl typeError \<Rightarrow> (s2, Inl typeError)
                   | Inr errorMessage \<Rightarrow>
                       (showOperationStatus (''operation failed: '' @ errorMessage) ''error'' s2,
                        Inl error)))"

text \<open>Lines 183-185.\<close>

definition hasPendingOperations :: "'w window \<Rightarrow> bool" where
  "hasPendingOperations s = (pendingOperations (realtimeSync s) \<noteq> {})"

text \<open>Lines 177-180.\<close>

definition setEnabled :: "bool \<Rightarrow> 'w window \<Rightarrow> 'w window" where
  "setEnabled enabled s =
     console_log (if enabled then ''realtime sync enabled'' else ''realtime sync disabled'')
       (s\<lparr>realtimeSync := (realtimeSync s)\<lparr>isEnabled := enabled\<rparr>\<rparr>)"

subsection \<open>Strings of method names and endpoints\<close>

text \<open>
  \<^verbatim>\<open>toUpperCase\<close>, \<^verbatim>\<open>toLowerCase\<close> and \<^verbatim>\<open>includes\<close> on ASCII text (HTTP method tokens and
  URL paths are ASCII).
\<close>

definition upper_char :: "char \<Rightarrow> char" where
  "upper_char c =
     (if 97 \<le> (of_char c :: nat) \<and> (of_char c :: nat) \<le> 122
      then char_of ((of_char c :: nat) - 32) else c)"

definition lower_char :: "char \<Rightarrow> char" where
  "lower_char c =
     (if 65 \<le> (of_char c :: nat) \<and> (of_char c :: nat) \<le> 90
      then char_of ((of_char c :: nat) + 32) else c)"

definition toUpperCase :: "string \<Rightarrow> string" where
  "toUpperCase s = map upper_char s"

definition toLowerCase :: "string \<Rightarrow> string" where
  "toLowerCase s = map lower_char s"

fun includes_str :: "string \<Rightarrow> string \<Rightarrow> bool" where
  "includes_str [] sub = (sub = [])"
| "includes_str (c # cs) sub = (take (length sub) (c # cs) = sub \<or> includes_str cs sub)"

text \<open>
  The second argument of \<^verbatim>\<open>apiRequest\<close> is a method name or an options object
  (config.js lines 46-59); a caller may also leave it out or pass \<^verbatim>\<open>null\<close>. The third
  argument is the body of the first way of calling; \<open>JUndefined\<close> stands for an argument
  that is not passed.
\<close>

datatype api_options =
    OptionsUndefined
  | OptionsNull
  | OptionsString string
  | OptionsObject request_init

type_synonym 'w api_request = "string \<Rightarrow> api_options \<Rightarrow> jsval \<Rightarrow> 'w action"

text \<open>The default parameter \<^verbatim>\<open>= {}\<close> (config.js line 43, realtime-sync.js line 87,
  part_001 line 171): it replaces an argument that is left out, not \<^verbatim>\<open>null\<close>.\<close>

definition default_options :: "api_options \<Rightarrow> api_options" where
  "default_options options =
     (case options of
        OptionsUndefined \<Rightarrow> OptionsObject \<lparr>req_method = None, req_body = None, req_headers = None\<rparr>
      | _ \<Rightarrow> options)"

text \<open>
  \<^verbatim>\<open>options.method || 'GET'\<close> (realtime-sync.js line 88, part_001 line 172): a string
  has no \<^verbatim>\<open>method\<close> property, the empty string is falsy, and reading a property of
  \<^verbatim>\<open>null\<close> or \<^verbatim>\<open>undefined\<close> throws a TypeError.
\<close>

definition options_method :: "api_options \<Rightarrow> string completion" where
  "options_method options =
     (case options of
        OptionsUndefined \<Rightarrow>
          Inl (JsError ''TypeError'' ''Cannot read properties of undefined (reading method)'')
      | OptionsNull \<Rightarrow>
          Inl (JsError ''TypeError'' ''Cannot read properties of null (reading method)'')
      | OptionsString _ \<Rightarrow> Inr ''GET''
      | OptionsObject init \<Rightarrow>
          (case req_method init of
             None \<Rightarrow> Inr ''GET''
           | Some m \<Rightarrow> Inr (if m \<noteq> [] then m else ''GET'')))"

definition isModifyingOperation :: "string \<Rightarrow> bool" where
  "isModifyingOperation method = (toUpperCase method \<in> set [''POST'', ''PUT'', ''DELETE''])"

text \<open>Lines 107-129.\<close>

definition getOperationType :: "string \<Rightarrow> string \<Rightarrow> string" where
  "getOperationType endpoint method =
     (let path = toLowerCase endpoint;
          reg = (if includes_str path ''registration'' then
                   (if method = ''POST'' then Some ''create_registration''
                    else if method = ''DELETE'' \<or> includes_str path ''cancel'' then Some ''cancel_registration''
                    else if method = ''PUT'' then Some ''update_registration''
                    else None)
                 else None);
          pat = (if includes_str path ''patient'' then
                   (if method = ''POST'' then Some ''create_patient''
                    else if method = ''PUT'' then Some ''update_patient''
                    else if method = ''DELETE'' then Some ''delete_patient''
                    else None)
                 else None);
          doc = (if includes_str path ''doctor'' then
                   (if method = ''POST'' then Some ''create_doctor''
                    else if method = ''PUT'' then Some ''update_doctor''
                    else if method = ''DELETE'' then Some ''delete_doctor''
                    else None)
                 else None)
      in case reg of Some t \<Rightarrow> t
         | None \<Rightarrow> (case pat of Some t \<Rightarrow> t
                    | None \<Rightarrow> (case doc of Some t \<Rightarrow> t | None \<Rightarrow> ''general_operation'')))"

text \<open>Lines 134-169: the body of the \<^verbatim>\<open>try\<close> block of \<^verbatim>\<open>refreshRelevantData\<close>.\<close>

definition refreshRelevantData_switch :: "'w env \<Rightarrow> string \<Rightarrow> 'w action" where
  "refreshRelevantData_switch env operationType s =
     (if operationType \<in> set [''create_registration'', ''cancel_registration'', ''update_registration''] then
        (case call_if_function (loadRegistrations env) s of
           (s1, Inl e) \<Rightarrow> (s1, Inl e)
         | (s1, Inr _) \<Rightarrow>
             (case call_if_function (loadDepartments env) s1 of
                (s2, Inl e) \<Rightarrow> (s2, Inl e)
              | (s2, Inr _) \<Rightarrow> (s2, Inr JUndefined)))
      else if operationType \<in> set [''create_patient'', ''update_patient'', ''delete_patient''] then
        (case call_if_function (loadProfile env) s of
           (s1, Inl e) \<Rightarrow> (s1, Inl e)
         | (s1, Inr _) \<Rightarrow> (s1, Inr JUndefined))
      else if operationType \<in> set [''create_doctor'', ''update_doctor'', ''delete_doctor''] then
        (case call_if_function (loadDoctors env) s of
           (s1, Inl e) \<Rightarrow> (s1, Inl e)
         | (s1, Inr _) \<Rightarrow> (s1, Inr JUndefined))
      else (s, Inr JUndefined))"

definition refreshRelevantData_try :: "'w env \<Rightarrow> string \<Rightarrow> 'w action" where
  "refreshRelevantData_try env operationType s =
     (case refreshRelevantData_switch env operationType s of
        (s1, Inl e) \<Rightarrow> (s1, Inl e)
      | (s1, Inr _) \<Rightarrow>
          (if onDemandRefreshInstalled env then
             (case refreshCurrentSection env s1 of
                (s2, Inl e) \<Rightarrow> (s2, Inl e)
              | (s2, Inr _) \<Rightarrow> (s2, Inr JUndefined))
           else (s1, Inr JUndefined)))"

text \<open>Lines 132-174: a failure is caught and logged; the function returns normally.\<close>

definition refreshRelevantData :: "'w env \<Rightarrow> string \<Rightarrow> 'w action" where
  "refreshRelevantData env operationType s =
     (case refreshRelevantData_try env operationType s of
        (s1, Inr _) \<Rightarrow> (s1, Inr JUndefined)
      | (s1, Inl error) \<Rightarrow> (console_error ''refreshing data failed'' error s1, Inr JUndefined))"

text \<open>
  Lines 86-104. The function that \<^verbatim>\<open>wrapApiRequest\<close> returns has two parameters: a
  third argument of the caller (\<open>body\<close>) is not used, and the original is called with
  \<^verbatim>\<open>(endpoint, options)\<close> only.
\<close>

definition wrapApiRequest :: "'w env \<Rightarrow> 'w api_request \<Rightarrow> 'w api_request" where
  "wrapApiRequest env originalApiRequest endpoint optionsArgument body s =
     (let options = default_options optionsArgument
      in case options_method options of
           Inl typeError \<Rightarrow> (s, Inl typeError)
         | Inr method \<Rightarrow>
             (if \<not> isModifyingOperation method
              then originalApiRequest endpoint options JUndefined s
              else
                let operationType = getOperationType endpoint method
                in executeOperation env operationType
                     (originalApiRequest endpoint options JUndefined)
                     (Some (refreshRelevantData env operationType)) s))"

section \<open>InstantResponse (part_001)\<close>

text \<open>Lines 85-88.\<close>

definition showInstantFeedback :: "string \<Rightarrow> string \<Rightarrow> 'w window \<Rightarrow> 'w window" where
  "showInstantFeedback msg type s = console_log (''instant feedback: '' @ msg @ '' ('' @ type @ '')'') s"

definition set_optimisticUpdate :: "int \<Rightarrow> 'w optimistic_update \<Rightarrow> 'w window \<Rightarrow> 'w window" where
  "set_optimisticUpdate operationId u s =
     s\<lparr>instantResponse := (instantResponse s)
         \<lparr>optimisticUpdates := (optimisticUpdates (instantResponse s))(operationId \<mapsto> u)\<rparr>\<rparr>"

definition delete_optimisticUpdate :: "int \<Rightarrow> 'w window \<Rightarrow> 'w window" where
  "delete_optimisticUpdate operationId s =
     s\<lparr>instantResponse := (instantResponse s)
         \<lparr>optimisticUpdates := (optimisticUpdates (instantResponse s))(operationId := None)\<rparr>\<rparr>"

text \<open>Lines 60-68: the validation is a placeholder that answers \<^verbatim>\<open>true\<close>.\<close>

definition validateOperation :: "string \<Rightarrow> 'w action" where
  "validateOperation operation s = (s, Inr (JBool True))"

text \<open>
  A stored rollback function is called. The closure of \<^verbatim>\<open>wrapApiForInstantResponse\<close>
  (lines 183-188) starts \<^verbatim>\<open>refreshCurrentSection\<close> without awaiting it and returns
  \<^verbatim>\<open>undefined\<close>.
\<close>

definition call_rollback :: "'w env \<Rightarrow> 'w rollback \<Rightarrow> 'w action" where
  "call_rollback env f s =
     (case f of
        RollbackExtern g \<Rightarrow> call_extern g s
      | RollbackRefreshCurrentSection \<Rightarrow>
          (if onDemandRefreshInstalled env
           then (s\<lparr>spawned := spawned s @ [SpawnedRefreshCurrentSection]\<rparr>, Inr JUndefined)
           else (s, Inr JUndefined)))"

text \<open>Lines 71-82: a failure of the rollback function is caught and logged.\<close>

definition rollbackOperation :: "'w env \<Rightarrow> int \<Rightarrow> 'w action" where
  "rollbackOperation env operationId s =
     (let s1 = (case optimisticUpdates (instantResponse s) operationId of
                  None \<Rightarrow> s
                | Some update \<Rightarrow>
                    (case rollbackFunction update of
                       None \<Rightarrow> s
                     | Some f \<Rightarrow>
                         (case call_rollback env f s of
                            (s', Inr _) \<Rightarrow> showInstantFeedback ''operation rolled back'' ''warning'' s'
                          | (s', Inl error) \<Rightarrow> console_error ''rollback failed'' error s')))
      in (delete_optimisticUpdate operationId s1, Inr JUndefined))"

text \<open>
  Lines 36-57. The timer of line 39 cannot fail; while it runs the world moves on.
  \<^verbatim>\<open>validateOperation\<close> answers a boolean.
\<close>

definition backgroundSync :: "'w env \<Rightarrow> int \<Rightarrow> string \<Rightarrow> 'w action" where
  "backgroundSync env operationId operation s =
     (let s1 = s\<lparr>world := sleep env 100 (world s)\<rparr>
      in case validateOperation operation s1 of
           (s2, Inr isValid) \<Rightarrow>
             (if truthy isValid then
                (console_log ''background sync validated''
                   (delete_optimisticUpdate operationId s2), Inr JUndefined)
              else rollbackOperation env operationId s2)
         | (s2, Inl error) \<Rightarrow>
             rollbackOperation env operationId (console_error ''background sync failed'' error s2))"

text \<open>
  Lines 12-33. \<^verbatim>\<open>backgroundSync\<close> is started and not awaited (line 24): the caller gets
  the result at once.
\<close>

definition optimisticUpdate ::
  "'w env \<Rightarrow> string \<Rightarrow> 'w action \<Rightarrow> 'w rollback option \<Rightarrow> 'w action" where
  "optimisticUpdate env operation updateFunction rollbackFn s =
     (let (s0, operationId) = date_now env s
      in case updateFunction s0 of
           (s1, Inr result) \<Rightarrow>
             (let s2 = set_optimisticUpdate operationId
                         \<lparr>rollbackFunction = rollbackFn, ou_result = result\<rparr> s1;
                  s3 = showInstantFeedback ''operation succeeded'' ''success'' s2
              in (s3\<lparr>spawned := spawned s3 @ [SpawnedBackgroundSync operationId operation]\<rparr>,
                  Inr result))
         | (s1, Inl error) \<Rightarrow>
             (case read_message env error of
                Inl typeError \<Rightarrow> (s1, Inl typeError)
              | Inr errorMessage \<Rightarrow>
                  (showInstantFeedback (''operation failed: '' @ errorMessage) ''error'' s1,
                   Inl error)))"

text \<open>Lines 170-191. As in \<^verbatim>\<open>wrapApiRequest\<close>, a third argument of the caller is not
  used.\<close>

definition wrapApiForInstantResponse :: "'w env \<Rightarrow> 'w api_request \<Rightarrow> 'w api_request" where
  "wrapApiForInstantResponse env originalApiRequest endpoint optionsArgument body s =
     (let options = default_options optionsArgument
      in case options_method options of
           Inl typeError \<Rightarrow> (s, Inl typeError)
         | Inr method \<Rightarrow>
             (if \<not> isModifyingOperation method
              then originalApiRequest endpoint options JUndefined s
              else optimisticUpdate env (method @ '' '' @ endpoint)
                     (originalApiRequest endpoint options JUndefined)
                     (Some RollbackRefreshCurrentSection) s))"

section \<open>apiRequest (config.js)\<close>

definition API_BASE_URL :: string where
  "API_BASE_URL = ''http://127.0.0.1:50002/api''"

text \<open>Lines 25-34, called with no path parameters.\<close>

definition getApiUrl :: "string \<Rightarrow> string" where
  "getApiUrl endpoint = API_BASE_URL @ endpoint"

text \<open>Lines 37-40.\<close>

definition getAuthHeaders :: "'w window \<Rightarrow> (string \<times> string) list" where
  "getAuthHeaders s =
     (case localStorage s ''token'' of
        None \<Rightarrow> []
      | Some token \<Rightarrow> (if token \<noteq> [] then [(''Authorization'', ''Bearer '' @ token)] else []))"

definition removeItem :: "string \<Rightarrow> 'w window \<Rightarrow> 'w window" where
  "removeItem key s = s\<lparr>localStorage := (localStorage s)(key := None)\<rparr>"

text \<open>
  \<^verbatim>\<open>data.error\<close> on a parsed JSON value: reading a property of \<^verbatim>\<open>null\<close> throws a
  TypeError; a value that is not an object has no such property.
\<close>

definition get_error_property :: "jsval \<Rightarrow> jsval completion" where
  "get_error_property data =
     (case data of
        JNull \<Rightarrow> Inl (JsError ''TypeError'' ''Cannot read properties of null'')
      | JUndefined \<Rightarrow> Inl (JsError ''TypeError'' ''Cannot read properties of undefined'')
      | JObj props \<Rightarrow> (case map_of props ''error'' of None \<Rightarrow> Inr JUndefined | Some v \<Rightarrow> Inr v)
      | _ \<Rightarrow> Inr JUndefined)"

text \<open>
  Lines 43-59: the two ways of calling. An argument left out is \<^verbatim>\<open>{}\<close>; \<^verbatim>\<open>null\<close> is not
  a string and adds nothing when it is spread on line 70. A body left out is \<^verbatim>\<open>null\<close>,
  which is falsy like \<^verbatim>\<open>undefined\<close>.
\<close>

definition request_options :: "'w env \<Rightarrow> api_options \<Rightarrow> jsval \<Rightarrow> request_init" where
  "request_options env methodOrOptions body =
     (case methodOrOptions of
        OptionsUndefined \<Rightarrow> \<lparr>req_method = None, req_body = None, req_headers = None\<rparr>
      | OptionsNull \<Rightarrow> \<lparr>req_method = None, req_body = None, req_headers = None\<rparr>
      | OptionsString m \<Rightarrow>
          \<lparr>req_method = Some m,
           req_body = (if truthy body then Some (JSON_stringify env body) else None),
           req_headers = None\<rparr>
      | OptionsObject init \<Rightarrow> init)"

text \<open>Lines 61-70: \<^verbatim>\<open>{ ...defaultOptions, ...options }\<close>; headers of the caller replace the
  default ones.\<close>

definition merged_options :: "'w window \<Rightarrow> request_init \<Rightarrow> request_init" where
  "merged_options s options =
     options\<lparr>req_headers :=
       (case req_headers options of
          Some h \<Rightarrow> Some h
        | None \<Rightarrow> Some ((''Content-Type'', ''application/json'') # getAuthHeaders s))\<rparr>"

text \<open>Lines 43-92.\<close>

definition apiRequest :: "'w env \<Rightarrow> string \<Rightarrow> api_options \<Rightarrow> jsval \<Rightarrow> 'w action" where
  "apiRequest env endpoint methodOrOptions body s =
     (let url = getApiUrl endpoint;
          options = request_options env methodOrOptions body;
          s1 = console_log (''API Request: '' @ url) s;
          (w2, r) = fetch env url (merged_options s1 options) (world s1);
          s2 = s1\<lparr>world := w2\<rparr>
      in case r of
           Inl e \<Rightarrow> (s2, Inl e)
         | Inr response \<Rightarrow>
             (let s3 = console_log ''API Response Status'' s2
              in if status response = 401 then
                   ((removeItem ''user_id'' (removeItem ''username''
                      (removeItem ''role'' (removeItem ''token'' s3))))
                      \<lparr>location_href := ''login.html''\<rparr>,
                    Inr JUndefined)
                 else
                   (case json response of
                      Inl e \<Rightarrow> (s3, Inl e)
                    | Inr data \<Rightarrow>
                        (let s4 = console_log ''API Response Data'' s3
                         in if \<not> ok response then
                              (case get_error_property data of
                                 Inl e \<Rightarrow> (s4, Inl e)
                               | Inr v \<Rightarrow>
                                   (s4, Inl (JsError ''Error''
                                      (if truthy v then error_message env v else ''Request failed''))))
                            else (s4, Inr data)))))"

section \<open>Interleaving of asynchronous calls\<close>

text \<open>
  An \<^verbatim>\<open>async\<close> function runs without interruption up to an \<^verbatim>\<open>await\<close>, where other
  handlers of the page may run before it goes on. The two models below cut
  \<^verbatim>\<open>refreshAfterUserAction\<close> and \<^verbatim>\<open>executeOperation\<close> at their awaits and let any
  sequence of events interleave the pieces.
\<close>

subsection \<open>Runs of refreshAfterUserAction\<close>

text \<open>A run suspended at line 42: its action type, the section being refreshed, and the
  sections still to visit.\<close>

datatype suspended_run = Suspended string string "string list"

text \<open>Lines 48 and 54, and lines 51-54.\<close>

definition run_finish_ok :: "string \<Rightarrow> 'w window \<Rightarrow> 'w window" where
  "run_finish_ok actionType s = set_isRefreshing False (showRefreshComplete actionType s)"

definition run_finish_error :: "'w env \<Rightarrow> js_error \<Rightarrow> 'w window \<Rightarrow> 'w window" where
  "run_finish_error env error s =
     (let s2 = console_error ''refresh failed'' error s
      in case read_message env error of
           Inl typeError \<Rightarrow> set_isRefreshing False s2
         | Inr errorMessage \<Rightarrow> set_isRefreshing False (showRefreshError errorMessage s2))"

text \<open>The loop of lines 40-45 up to the next section that is refreshed.\<close>

fun run_advance :: "'w env \<Rightarrow> string \<Rightarrow> string list \<Rightarrow> 'w window \<Rightarrow> 'w window \<times> suspended_run option" where
  "run_advance env actionType [] s = (run_finish_ok actionType s, None)"
| "run_advance env actionType (section # rest) s =
     (case shouldRefresh env section s of
        (s1, True) \<Rightarrow> (s1, Some (Suspended actionType section rest))
      | (s1, False) \<Rightarrow> run_advance env actionType rest s1)"

text \<open>The call itself, up to its first await.\<close>

definition run_start :: "'w env \<Rightarrow> string \<Rightarrow> string option \<Rightarrow> 'w window \<Rightarrow> 'w window \<times> suspended_run option" where
  "run_start env actionType targetSection s =
     (if isRefreshing (onDemandRefresh s) then
        (console_log ''refresh in progress, skipping duplicate refresh'' s, None)
      else
        let s1 = console_log (''refresh after user action: '' @ actionType) (set_isRefreshing True s)
        in case getSectionsToRefresh env actionType targetSection s1 of
             Inl e \<Rightarrow> (run_finish_error env e s1, None)
           | Inr sectionsToRefresh \<Rightarrow> run_advance env actionType sectionsToRefresh s1)"

text \<open>The awaited \<^verbatim>\<open>refreshSection\<close> settles and the run goes on.\<close>

fun run_resume :: "'w env \<Rightarrow> suspended_run \<Rightarrow> 'w window \<Rightarrow> 'w window \<times> suspended_run option" where
  "run_resume env (Suspended actionType section rest) s =
     (case refreshSection env section s of
        (s1, Inl e) \<Rightarrow> (run_finish_error env e s1, None)
      | (s1, Inr _) \<Rightarrow> run_advance env actionType rest (recordRefresh env section s1))"

text \<open>A single run driven to its end, one resumption after the other.\<close>

inductive run_completes :: "'w env \<Rightarrow> 'w window \<times> suspended_run option \<Rightarrow> 'w window \<Rightarrow> bool"
  for env :: "'w env" where
    run_done: "run_completes env (s, None) s"
  | run_more: "run_completes env (run_resume env r s) s' \<Longrightarrow> run_completes env (s, Some r) s'"

record 'w refresh_system =
  page :: "'w window"
  in_flight :: "suspended_run list"

text \<open>
  What can happen on the page: a call of \<^verbatim>\<open>refreshAfterUserAction\<close>, the resumption
  of a suspended run, a call of \<^verbatim>\<open>refreshCurrentSection\<close> (from
  \<^verbatim>\<open>refreshRelevantData\<close>, from a rollback or from the visibility handler of
  enhanced-api.js; it does not look at the flag), and anything outside the scripts.
\<close>

datatype 'w refresh_event =
    Invoke string "string option"
  | Resume nat
  | RefreshCurrent
  | Outside "'w \<Rightarrow> 'w"

definition option_list :: "'a option \<Rightarrow> 'a list" where
  "option_list x = (case x of None \<Rightarrow> [] | Some y \<Rightarrow> [y])"

definition remove_nth :: "nat \<Rightarrow> 'a list \<Rightarrow> 'a list" where
  "remove_nth i xs = take i xs @ drop (Suc i) xs"

fun refresh_step :: "'w env \<Rightarrow> 'w refresh_system \<Rightarrow> 'w refresh_event \<Rightarrow> 'w refresh_system" where
  "refresh_step env c (Invoke actionType targetSection) =
     (let (s', r) = run_start env actionType targetSection (page c)
      in \<lparr>page = s', in_flight = in_flight c @ option_list r\<rparr>)"
| "refresh_step env c (Resume i) =
     (if i < length (in_flight c) then
        let (s', r) = run_resume env (in_flight c ! i) (page c)
        in \<lparr>page = s', in_flight = remove_nth i (in_flight c) @ option_list r\<rparr>
      else c)"
| "refresh_step env c RefreshCurrent = c\<lparr>page := fst (refreshCurrentSection env (page c))\<rparr>"
| "refresh_step env c (Outside f) = c\<lparr>page := (page c)\<lparr>world := f (world (page c))\<rparr>\<rparr>"

definition refresh_events :: "'w env \<Rightarrow> 'w refresh_event list \<Rightarrow> 'w refresh_system \<Rightarrow> 'w refresh_system" where
  "refresh_events env events c = foldl (refresh_step env) c events"

subsection \<open>Operations of executeOperation\<close>

text \<open>Lines 23-32, up to the call of \<^verbatim>\<open>apiCall\<close>: the id that was added, if any.\<close>

definition operation_begin :: "'w env \<Rightarrow> string \<Rightarrow> 'w window \<Rightarrow> 'w window \<times> operation_id option" where
  "operation_begin env operationType s =
     (if \<not> isEnabled (realtimeSync s) then (s, None)
      else
        let (s0, now) = date_now env s
        in (showOperationStatus ''in progress...'' ''info'' (add_pending (operationType, now) s0),
            Some (operationType, now)))"

text \<open>Lines 49-52, and lines 55-57.\<close>

definition operation_succeed :: "operation_id option \<Rightarrow> 'w window \<Rightarrow> 'w window" where
  "operation_succeed tracked s =
     (case tracked of
        None \<Rightarrow> s
      | Some operationId \<Rightarrow>
          delete_pending operationId
            (showOperationStatus ''operation succeeded, data updated'' ''success'' s))"

definition operation_fail :: "'w env \<Rightarrow> operation_id option \<Rightarrow> js_error \<Rightarrow> 'w window \<Rightarrow> 'w window" where
  "operation_fail env tracked error s =
     (case tracked of
        None \<Rightarrow> s
      | Some operationId \<Rightarrow>
          (let s2 = delete_pending operationId s
           in case read_message env error of
                Inl typeError \<Rightarrow> s2
              | Inr errorMessage \<Rightarrow>
                  showOperationStatus (''operation failed: '' @ errorMessage) ''error'' s2))"

text \<open>What a failed operation rejects with (lines 56-57).\<close>

definition operation_fail_error :: "'w env \<Rightarrow> js_error \<Rightarrow> js_error" where
  "operation_fail_error env error =
     (case read_message env error of Inl typeError \<Rightarrow> typeError | Inr errorMessage \<Rightarrow> error)"

text \<open>Lines 35-46: what is awaited between the two.\<close>

definition operation_awaits :: "string \<Rightarrow> 'w action \<Rightarrow> 'w action option \<Rightarrow> 'w action" where
  "operation_awaits operationType apiCall refreshCallback s =
     (case apiCall s of
        (s1, Inl e) \<Rightarrow> (s1, Inl e)
      | (s1, Inr result) \<Rightarrow>
          (case waitForSync 0 s1 of
             (s2, Inl e) \<Rightarrow> (s2, Inl e)
           | (s2, Inr _) \<Rightarrow>
               (case (case refreshCallback of
                        None \<Rightarrow> (s2, Inr JUndefined)
                      | Some refresh \<Rightarrow> refresh s2) of
                  (s3, Inl e) \<Rightarrow> (s3, Inl e)
                | (s3, Inr _) \<Rightarrow>
                    (case triggerCallbacks operationType result s3 of
                       (s4, Inl e) \<Rightarrow> (s4, Inl e)
                     | (s4, Inr _) \<Rightarrow> (s4, Inr result)))))"

record 'w operation_system =
  op_page :: "'w window"
  op_in_flight :: "operation_id option list"

datatype 'w operation_event =
    Begin string
  | Succeed nat
  | Fail nat js_error
  | SetEnabled bool
  | OutsideOp "'w \<Rightarrow> 'w"

fun operation_step :: "'w env \<Rightarrow> 'w operation_system \<Rightarrow> 'w operation_event \<Rightarrow> 'w operation_system" where
  "operation_step env c (Begin operationType) =
     (let (s', tracked) = operation_begin env operationType (op_page c)
      in \<lparr>op_page = s', op_in_flight = op_in_flight c @ [tracked]\<rparr>)"
| "operation_step env c (Succeed i) =
     (if i < length (op_in_flight c) then
        \<lparr>op_page = operation_succeed (op_in_flight c ! i) (op_page c),
         op_in_flight = remove_nth i (op_in_flight c)\<rparr>
      else c)"
| "operation_step env c (Fail i error) =
     (if i < length (op_in_flight c) then
        \<lparr>op_page = operation_fail env (op_in_flight c ! i) error (op_page c),
         op_in_flight = remove_nth i (op_in_flight c)\<rparr>
      else c)"
| "operation_step env c (SetEnabled b) = c\<lparr>op_page := setEnabled b (op_page c)\<rparr>"
| "operation_step env c (OutsideOp f) = c\<lparr>op_page := (op_page c)\<lparr>world := f (world (op_page c))\<rparr>\<rparr>"

definition operation_events :: "'w env \<Rightarrow> 'w operation_event list \<Rightarrow> 'w operation_system \<Rightarrow> 'w operation_system" where
  "operation_events env events c = foldl (operation_step env) c events"

section \<open>The synchronization engine\<close>

text \<open>
  The engine itself (\<^verbatim>\<open>db_sync.py\<close> and \<^verbatim>\<open>multi_db_conflict_handler.py\<close> in the project
  structure of the README) is not among the sources. Its data model, its resolution
  policies and its sync pass are modelled from the specification.
\<close>

subsection \<open>Data model\<close>

text \<open>Modelled from the spec: the fixed entity set and the identity of a record,
  (entity_type, primary_key), of section 3 (the engine's types are missing).\<close>

datatype entity_type = Patients | Doctors | Departments | Titles | Registrations

type_synonym identity = "entity_type \<times> nat"

text \<open>Modelled from the spec: the Record of section 3 (the engine's record type is missing);
  the attributes are the business state, \<open>updated_at\<close> and \<open>origin_store\<close> are sync
  metadata.\<close>

record 'a sync_record =
  attributes :: 'a
  updated_at :: int
  origin_store :: string

text \<open>Modelled from the spec: the StoreHandle of section 3 (missing).\<close>

record store_handle =
  store_id :: string
  reachable :: bool
  priority_rank :: nat

text \<open>Modelled from the spec: a store behind its adapter (section 4.1, missing): its
  handle, its rows, and the watermark of its last successful sync.\<close>

record 'a store =
  handle :: store_handle
  rows :: "(identity \<times> 'a sync_record) list"
  watermark :: int

text \<open>Modelled from the spec: the per-store snapshot of a ConflictRecord, the configured
  resolution policy (section 6) and the overall status of a SyncRun (section 3); all
  missing.\<close>

type_synonym 'a snapshot = "store_handle \<times> 'a sync_record"

datatype policy = LatestTimestamp | StorePriority string | Manual

datatype run_status = Success | PartialFailure | Failed

text \<open>Modelled from the spec: the Store Adapter contract of section 4.1 (missing):
  \<^verbatim>\<open>currentState\<close>, \<^verbatim>\<open>fetchChanged\<close> and \<^verbatim>\<open>apply\<close>.\<close>

definition currentState :: "'a store \<Rightarrow> identity \<Rightarrow> 'a sync_record option" where
  "currentState st ident = map_of (rows st) ident"

definition fetchChanged :: "'a store \<Rightarrow> int \<Rightarrow> (identity \<times> 'a sync_record) list" where
  "fetchChanged st since = filter (\<lambda>row. updated_at (snd row) > since) (rows st)"

definition apply_record :: "identity \<Rightarrow> 'a sync_record \<Rightarrow> 'a store \<Rightarrow> 'a store" where
  "apply_record ident r st = st\<lparr>rows := (ident, r) # filter (\<lambda>row. fst row \<noteq> ident) (rows st)\<rparr>"

subsection \<open>Conflict resolution\<close>

text \<open>Modelled from the spec: the order of the \<^verbatim>\<open>latest_timestamp\<close> policy of section 4.4
  (the resolver of \<^verbatim>\<open>multi_db_conflict_handler.py\<close> is missing): the greater
  \<open>updated_at\<close> wins; on equal timestamps the StoreHandle priority rank decides, then
  the lexical order of the store ids. A smaller rank is taken as the higher priority
  and the lexically smaller store id as the first.
\<close>

definition beats :: "'a snapshot \<Rightarrow> 'a snapshot \<Rightarrow> bool" where
  "beats a b =
     (updated_at (snd a) > updated_at (snd b)
      \<or> (updated_at (snd a) = updated_at (snd b)
         \<and> (priority_rank (fst a) < priority_rank (fst b)
            \<or> (priority_rank (fst a) = priority_rank (fst b)
               \<and> store_id (fst a) < store_id (fst b)))))"

text \<open>Modelled from the spec: the winner under \<^verbatim>\<open>latest_timestamp\<close> (section 4.4, missing).\<close>

fun latest_timestamp_winner :: "'a snapshot list \<Rightarrow> 'a snapshot option" where
  "latest_timestamp_winner [] = None"
| "latest_timestamp_winner (x # xs) = Some (foldl (\<lambda>w y. if beats y w then y else w) x xs)"

text \<open>Modelled from the spec: the three resolution policies of section 4.4 (missing).
  \<^verbatim>\<open>store_priority\<close> takes the named store's snapshot when there is one and falls back
  to \<^verbatim>\<open>latest_timestamp\<close> otherwise; \<^verbatim>\<open>manual\<close> names no winner.
\<close>

definition resolve :: "policy \<Rightarrow> 'a snapshot list \<Rightarrow> 'a snapshot option" where
  "resolve p snaps =
     (case p of
        LatestTimestamp \<Rightarrow> latest_timestamp_winner snaps
      | StorePriority sid \<Rightarrow>
          (case find (\<lambda>x. store_id (fst x) = sid) snaps of
             Some x \<Rightarrow> Some x
           | None \<Rightarrow> latest_timestamp_winner snaps)
      | Manual \<Rightarrow> None)"

subsection \<open>The sync pass\<close>

text \<open>Modelled from the spec: the per-store snapshot set of the Diffing phase (section 4.3,
  missing): the state of the identity in every reachable store that holds it.\<close>

definition snapshots :: "'a store list \<Rightarrow> identity \<Rightarrow> 'a snapshot list" where
  "snapshots stores ident =
     concat (map (\<lambda>st. if reachable (handle st)
                        then (case currentState st ident of
                                None \<Rightarrow> [] | Some r \<Rightarrow> [(handle st, r)])
                        else []) stores)"

text \<open>Modelled from the spec: the snapshots written since the watermark of their store,
  which is what Collecting fetches (section 4.3, missing).\<close>

definition changed_snapshots :: "'a store list \<Rightarrow> identity \<Rightarrow> 'a snapshot list" where
  "changed_snapshots stores ident =
     concat (map (\<lambda>st. if reachable (handle st)
                        then (case currentState st ident of
                                None \<Rightarrow> []
                              | Some r \<Rightarrow> (if updated_at r > watermark st then [(handle st, r)] else []))
                        else []) stores)"

text \<open>Modelled from the spec: the detection rule of section 4.4 (missing). Changes that
  agree on the business state (a single changed store in particular) take the fast path
  and are applied without the resolver; changed snapshots that differ are a conflict.
\<close>

definition is_conflict :: "'a snapshot list \<Rightarrow> bool" where
  "is_conflict changed =
     (case changed of
        [] \<Rightarrow> False
      | c # cs \<Rightarrow> list_ex (\<lambda>x. attributes (snd x) \<noteq> attributes (snd c)) cs)"

text \<open>Modelled from the spec: the winner handed to the Applying phase (sections 4.3 and
  4.4, missing); \<open>None\<close> is a conflict left open for manual resolution.\<close>

definition choose_winner :: "policy \<Rightarrow> 'a store list \<Rightarrow> identity \<Rightarrow> 'a snapshot option" where
  "choose_winner p stores ident =
     (let changed = changed_snapshots stores ident
      in if is_conflict changed then resolve p (snapshots stores ident)
         else latest_timestamp_winner changed)"

text \<open>Modelled from the spec: the Applying phase for one store (section 4.3, missing): the
  winning state is pushed to a reachable store whose state differs from it; the
  per-store apply may fail (\<open>apply_fails\<close>), which leaves that store as it was.
\<close>

definition differs_from :: "'a snapshot \<Rightarrow> identity \<Rightarrow> 'a store \<Rightarrow> bool" where
  "differs_from w ident st =
     (map_option attributes (currentState st ident) \<noteq> Some (attributes (snd w)))"

text \<open>Modelled from the spec: the push of the winning state to one store (section 4.3,
  missing).\<close>

definition push :: "(string \<Rightarrow> identity \<Rightarrow> bool) \<Rightarrow> 'a snapshot \<Rightarrow> identity \<Rightarrow> 'a store \<Rightarrow> 'a store" where
  "push apply_fails w ident st =
     (if reachable (handle st) \<and> differs_from w ident st \<and> \<not> apply_fails (store_id (handle st)) ident
      then apply_record ident (snd w) st else st)"

text \<open>Modelled from the spec: the per-store errors of the Applying phase, as the SyncRun
  records them (section 3, missing): the stores whose apply failed.\<close>

definition push_errors :: "(string \<Rightarrow> identity \<Rightarrow> bool) \<Rightarrow> 'a snapshot \<Rightarrow> identity \<Rightarrow> 'a store list \<Rightarrow> string list" where
  "push_errors apply_fails w ident stores =
     map (\<lambda>st. store_id (handle st))
       (filter (\<lambda>st. reachable (handle st) \<and> differs_from w ident st
                      \<and> apply_fails (store_id (handle st)) ident) stores)"

text \<open>Modelled from the spec: the outcome of a run as far as the SyncRun of section 3
  records it (missing): the stores, the stores whose apply failed, the conflicts left
  open.\<close>

record 'a pass_state =
  ps_stores :: "'a store list"
  ps_errors :: "string list"
  ps_open_conflicts :: "identity list"

text \<open>Modelled from the spec: Diffing and Applying for one touched identity (section 4.3,
  missing).\<close>

definition sync_identity :: "policy \<Rightarrow> (string \<Rightarrow> identity \<Rightarrow> bool) \<Rightarrow> 'a pass_state \<Rightarrow> identity \<Rightarrow> 'a pass_state" where
  "sync_identity p apply_fails ps ident =
     (case choose_winner p (ps_stores ps) ident of
        None \<Rightarrow> ps\<lparr>ps_open_conflicts := ps_open_conflicts ps @ [ident]\<rparr>
      | Some w \<Rightarrow>
          ps\<lparr>ps_stores := map (push apply_fails w ident) (ps_stores ps),
             ps_errors := ps_errors ps @ push_errors apply_fails w ident (ps_stores ps)\<rparr>)"

text \<open>Modelled from the spec: the identities touched by the changes that Collecting
  fetches from the reachable stores (section 4.3, missing).\<close>

definition touched :: "'a store list \<Rightarrow> identity list" where
  "touched stores =
     remdups (concat (map (\<lambda>st. if reachable (handle st)
                                 then map fst (fetchChanged st (watermark st)) else []) stores))"

text \<open>Modelled from the spec: the primary is the store named \<^verbatim>\<open>primary\<close> (section 3,
  missing).\<close>

definition primary_reachable :: "'a store list \<Rightarrow> bool" where
  "primary_reachable stores =
     list_ex (\<lambda>st. store_id (handle st) = ''primary'' \<and> reachable (handle st)) stores"

text \<open>Modelled from the spec: one sync pass, Collecting to Finalizing (section 4.3, missing).
  With the primary unreachable the run fails and changes nothing. Otherwise every touched
  identity is diffed and applied; the run is a success when every store was reachable and
  no apply failed, a partial failure otherwise; an open conflict is not an error
  (section 7). Finalizing moves the watermark of every reachable store without an error
  to the start of the run.
\<close>

definition sync_pass ::
  "policy \<Rightarrow> (string \<Rightarrow> identity \<Rightarrow> bool) \<Rightarrow> int \<Rightarrow> 'a store list \<Rightarrow> 'a pass_state \<times> run_status" where
  "sync_pass p apply_fails started_at stores =
     (if \<not> primary_reachable stores then
        (\<lparr>ps_stores = stores, ps_errors = [], ps_open_conflicts = []\<rparr>, Failed)
      else
        let ps = foldl (sync_identity p apply_fails)
                   \<lparr>ps_stores = stores, ps_errors = [], ps_open_conflicts = []\<rparr> (touched stores);
            finalized = map (\<lambda>st. if reachable (handle st) \<and> store_id (handle st) \<notin> set (ps_errors ps)
                                   then st\<lparr>watermark := started_at\<rparr> else st) (ps_stores ps)
        in (ps\<lparr>ps_stores := finalized\<rparr>,
            if list_all (\<lambda>st. reachable (handle st)) stores \<and> ps_errors ps = []
            then Success else PartialFailure))"

text \<open>Modelled from the spec: the business state of an identity in a store, which is the
  attributes without the sync metadata (section 3, missing).\<close>

definition business_state :: "'a store \<Rightarrow> identity \<Rightarrow> 'a option" where
  "business_state st ident = map_option attributes (currentState st ident)"

text \<open>Modelled from the spec: the convergence of section 3 for one identity: every
  reachable store holds the business state \<open>a\<close>.\<close>

definition agree_on :: "identity \<Rightarrow> 'a \<Rightarrow> 'a store list \<Rightarrow> bool" where
  "agree_on ident a stores =
     list_all (\<lambda>st. \<not> reachable (handle st) \<or> business_state st ident = Some a) stores"

section \<open>Refresh operations that reject with null or undefined\<close>




section \<open>Invariants of the interleaving models\<close>

text \<open>At most one run is in flight, and the flag is set exactly while one is.\<close>

definition refresh_inv :: "'w refresh_system \<Rightarrow> bool" where
  "refresh_inv c =
     (length (in_flight c) \<le> 1
      \<and> (isRefreshing (onDemandRefresh (page c)) = (in_flight c \<noteq> [])))"

text \<open>Every pending id belongs to an operation in flight.\<close>

definition operation_inv :: "'w operation_system \<Rightarrow> bool" where
  "operation_inv c =
     (pendingOperations (realtimeSync (op_page c)) \<subseteq> {i. Some i \<in> set (op_in_flight c)})"

section \<open>Concrete pages, surroundings and stores\<close>

text \<open>The page after the three scripts have run their constructors (part_000 line 213,
  realtime-sync.js line 200, part_001 line 195).\<close>

definition new_window :: "'w \<Rightarrow> 'w window" where
  "new_window w =
     \<lparr>onDemandRefresh = \<lparr>isRefreshing = False, lastRefreshTime = Map.empty, refreshCooldown = 0\<rparr>,
      realtimeSync = \<lparr>pendingOperations = {}, syncCallbacks = Map.empty, isEnabled = True\<rparr>,
      instantResponse = \<lparr>pendingOperationsMap = Map.empty, optimisticUpdates = Map.empty\<rparr>,
      localStorage = Map.empty,
      location_href = [],
      console = [],
      spawned = [],
      world = w\<rparr>"

text \<open>A world that records the names of the outside functions called, with outside
  functions that return and that throw.\<close>

definition outside_ok :: "string \<Rightarrow> string list extern" where
  "outside_ok name w = (w @ [name], Inr JUndefined)"

definition outside_throws :: "string \<Rightarrow> string list extern" where
  "outside_throws name w = (w @ [name], Inl (JsError ''Error'' (name @ '' failed'')))"

definition demo_env :: "bool \<Rightarrow> response completion \<Rightarrow> string list env" where
  "demo_env failing resp =
     \<lparr>Date_now = (\<lambda>w. (w, 1000 + int (length w))),
      sleep = (\<lambda>ms w. w),
      fetch = (\<lambda>url init w. (w @ [''fetch''], resp)),
      JSON_stringify = (\<lambda>v. ''{}''),
      String_of = (\<lambda>v. ''[object Object]''),
      loadRegistrations = Some (if failing then outside_throws ''loadRegistrations''
                                else outside_ok ''loadRegistrations''),
      loadDepartments = Some (outside_ok ''loadDepartments''),
      loadProfile = Some (outside_ok ''loadProfile''),
      loadDoctors = None,
      onDeptSelect = None,
      activeSectionId = (\<lambda>w. Some ''section-booking''),
      deptSelectValue = (\<lambda>w. False),
      onDemandRefreshInstalled = True\<rparr>"


text \<open>Surroundings whose \<^verbatim>\<open>fetch\<close> records the method and the body it was given.\<close>

definition recording_env :: "string list env" where
  "recording_env =
     (demo_env False (Inl (JsError ''TypeError'' ''Failed to fetch'')))
       \<lparr>fetch := (\<lambda>url init w.
            (w @ [''fetch method='' @ (case req_method init of None \<Rightarrow> ''(none)'' | Some m \<Rightarrow> m)
                    @ '' body='' @ (case req_body init of None \<Rightarrow> ''(none)'' | Some b \<Rightarrow> b)],
             Inr \<lparr>status = 200, ok = True, json = Inr (JStr ''done'')\<rparr>))\<rparr>"

text \<open>A page on which a refresh run is in flight.\<close>

definition busy_window :: "string list window" where
  "busy_window = set_isRefreshing True (new_window [])"

text \<open>A page with three callbacks registered for one operation; the second one throws.\<close>

definition demo_callbacks :: "string list window" where
  "demo_callbacks =
     registerCallback ''create_registration'' (\<lambda>v. outside_ok ''third'')
       (registerCallback ''create_registration'' (\<lambda>v. outside_throws ''second'')
         (registerCallback ''create_registration'' (\<lambda>v. outside_ok ''first'') (new_window [])))"

definition no_options :: api_options where
  "no_options = OptionsObject \<lparr>req_method = None, req_body = None, req_headers = None\<rparr>"

text \<open>The scenario of section 8 of the specification: the primary holds registration 42
  as confirmed at time 100, the MySQL store holds it as cancelled at time 105.\<close>

definition demo_primary :: "string store" where
  "demo_primary =
     \<lparr>handle = \<lparr>store_id = ''primary'', reachable = True, priority_rank = 1\<rparr>,
      rows = [((Registrations, 42),
               \<lparr>attributes = ''confirmed'', updated_at = 100, origin_store = ''primary''\<rparr>)],
      watermark = 0\<rparr>"

definition demo_mysql :: "string store" where
  "demo_mysql =
     \<lparr>handle = \<lparr>store_id = ''mysql'', reachable = True, priority_rank = 2\<rparr>,
      rows = [((Registrations, 42),
               \<lparr>attributes = ''cancelled'', updated_at = 105, origin_store = ''mysql''\<rparr>)],
      watermark = 0\<rparr>"

text \<open>Three snapshots of one identity; two of them carry the same latest timestamp.\<close>

definition demo_snapshots :: "string snapshot list" where
  "demo_snapshots =
     [(\<lparr>store_id = ''primary'', reachable = True, priority_rank = 1\<rparr>,
       \<lparr>attributes = ''confirmed'', updated_at = 100, origin_store = ''primary''\<rparr>),
      (\<lparr>store_id = ''sqlserver'', reachable = True, priority_rank = 2\<rparr>,
       \<lparr>attributes = ''completed'', updated_at = 105, origin_store = ''sqlserver''\<rparr>),
      (\<lparr>store_id = ''mysql'', reachable = True, priority_rank = 2\<rparr>,
       \<lparr>attributes = ''cancelled'', updated_at = 105, origin_store = ''mysql''\<rparr>)]"

definition no_failures :: "string \<Rightarrow> identity \<Rightarrow> bool" where
  "no_failures sid ident = False"

section \<open>Facts about the page state\<close>

lemma odr_console_log [simp]: "onDemandRefresh (console_log m s) = onDemandRefresh s"
  by (simp add: console_log_def)

lemma odr_console_error [simp]: "onDemandRefresh (console_error m e s) = onDemandRefresh s"
  by (simp add: console_error_def)

lemma odr_call_extern: "call_extern f s = (s', r) \<Longrightarrow> onDemandRefresh s' = onDemandRefresh s"
  by (auto simp: call_extern_def split: prod.splits)

lemma odr_call_if_function:
  "call_if_function f s = (s', r) \<Longrightarrow> onDemandRefresh s' = onDemandRefresh s"
  by (auto simp: call_if_function_def split: option.splits dest: odr_call_extern)

lemma odr_date_now: "date_now env s = (s', t) \<Longrightarrow> onDemandRefresh s' = onDemandRefresh s"
  by (auto simp: date_now_def split: prod.splits)

lemma odr_showToast [simp]: "onDemandRefresh (showToast m t s) = onDemandRefresh s"
  by (simp add: showToast_def)

lemma odr_showRefreshComplete [simp]:
  "onDemandRefresh (showRefreshComplete a s) = onDemandRefresh s"
  by (simp add: showRefreshComplete_def)

lemma odr_showRefreshError [simp]: "onDemandRefresh (showRefreshError m s) = onDemandRefresh s"
  by (simp add: showRefreshError_def)

lemma isRefreshing_set [simp]: "isRefreshing (onDemandRefresh (set_isRefreshing b s)) = b"
  by (simp add: set_isRefreshing_def)

lemma odr_shouldRefresh:
  "shouldRefresh env sec s = (s', b) \<Longrightarrow> onDemandRefresh s' = onDemandRefresh s"
  by (auto simp: shouldRefresh_def split: prod.splits dest: odr_date_now)

lemma flag_recordRefresh [simp]:
  "isRefreshing (onDemandRefresh (recordRefresh env sec s)) = isRefreshing (onDemandRefresh s)"
  by (auto simp: recordRefresh_def split: prod.splits dest: odr_date_now)

lemma odr_refreshSection_switch:
  "refreshSection_switch env sec s = (s', r) \<Longrightarrow> onDemandRefresh s' = onDemandRefresh s"
  by (auto simp: refreshSection_switch_def split: prod.splits sum.splits if_splits
           dest!: odr_call_if_function)

lemma odr_refreshSection:
  "refreshSection env sec s = (s', r) \<Longrightarrow> onDemandRefresh s' = onDemandRefresh s"
  by (auto simp: refreshSection_def split: prod.splits sum.splits dest!: odr_refreshSection_switch)

lemma flag_refreshCurrentSection:
  "isRefreshing (onDemandRefresh (fst (refreshCurrentSection env s)))
     = isRefreshing (onDemandRefresh s)"
  by (auto simp: refreshCurrentSection_def Let_def split: prod.splits sum.splits
           dest!: odr_refreshSection)

section \<open>Runs of refreshAfterUserAction\<close>

lemma run_finish_ok_flag [simp]: "\<not> isRefreshing (onDemandRefresh (run_finish_ok a s))"
  by (simp add: run_finish_ok_def)

lemma run_finish_error_flag [simp]: "\<not> isRefreshing (onDemandRefresh (run_finish_error env e s))"
  by (simp add: run_finish_error_def Let_def split: sum.splits)

text \<open>A piece of a run either ends the run with the flag cleared, or suspends it with
  the flag as it was.\<close>

lemma run_advance_flag:
  "run_advance env a secs s = (s', r) \<Longrightarrow>
     (case r of None \<Rightarrow> \<not> isRefreshing (onDemandRefresh s')
              | Some _ \<Rightarrow> isRefreshing (onDemandRefresh s') = isRefreshing (onDemandRefresh s))"
proof (induction secs arbitrary: s)
  case Nil
  then show ?case by auto
next
  case (Cons sec rest)
  obtain s1 b where h: "shouldRefresh env sec s = (s1, b)" by (cases "shouldRefresh env sec s")
  have o: "onDemandRefresh s1 = onDemandRefresh s" using odr_shouldRefresh [OF h] .
  show ?case
  proof (cases b)
    case True
    with Cons.prems h o show ?thesis by auto
  next
    case False
    with Cons.prems h have "run_advance env a rest s1 = (s', r)" by simp
    from Cons.IH [OF this] o show ?thesis by (simp split: option.splits)
  qed
qed

lemma run_start_flag:
  "run_start env a t s = (s', r) \<Longrightarrow>
     (if isRefreshing (onDemandRefresh s) then r = None \<and> isRefreshing (onDemandRefresh s')
      else (case r of None \<Rightarrow> \<not> isRefreshing (onDemandRefresh s')
                    | Some _ \<Rightarrow> isRefreshing (onDemandRefresh s')))"
  by (auto simp: run_start_def Let_def split: if_splits sum.splits option.splits
           dest!: run_advance_flag)

lemma run_resume_flag:
  "run_resume env x s = (s', r) \<Longrightarrow>
     (case r of None \<Rightarrow> \<not> isRefreshing (onDemandRefresh s')
              | Some _ \<Rightarrow> isRefreshing (onDemandRefresh s') = isRefreshing (onDemandRefresh s))"
proof (cases x)
  case (Suspended a sec rest)
  assume h: "run_resume env x s = (s', r)"
  obtain s1 c where rs: "refreshSection env sec s = (s1, c)" by (cases "refreshSection env sec s")
  have o: "onDemandRefresh s1 = onDemandRefresh s" using odr_refreshSection [OF rs] .
  show ?thesis
  proof (cases c)
    case (Inl e)
    with h Suspended rs show ?thesis by auto
  next
    case (Inr v)
    with h Suspended rs have "run_advance env a rest (recordRefresh env sec s1) = (s', r)" by simp
    from run_advance_flag [OF this] o show ?thesis by (simp split: option.splits)
  qed
qed

lemma refresh_step_inv: "refresh_inv c \<Longrightarrow> refresh_inv (refresh_step env c ev)"
proof (cases ev)
  case (Invoke a t)
  assume i: "refresh_inv c"
  obtain s' r where h: "run_start env a t (page c) = (s', r)" by (cases "run_start env a t (page c)")
  from run_start_flag [OF h] i show ?thesis
    by (auto simp: Invoke h refresh_inv_def option_list_def split: if_splits option.splits)
next
  case (Resume n)
  assume i: "refresh_inv c"
  show ?thesis
  proof (cases "n < length (in_flight c)")
    case False
    with i show ?thesis by (simp add: Resume)
  next
    case True
    with i have n0: "n = 0" and l: "length (in_flight c) = 1" by (auto simp: refresh_inv_def)
    obtain s' r where h: "run_resume env (in_flight c ! 0) (page c) = (s', r)"
      by (cases "run_resume env (in_flight c ! 0) (page c)")
    from l have rm: "remove_nth 0 (in_flight c) = []"
      by (cases "in_flight c") (auto simp: remove_nth_def)
    have st: "refresh_step env c ev = \<lparr>page = s', in_flight = option_list r\<rparr>"
      using True by (simp add: Resume n0 h rm)
    from run_resume_flag [OF h] i l show ?thesis
      unfolding st by (auto simp: refresh_inv_def option_list_def split: option.splits)
  qed
next
  case RefreshCurrent
  assume "refresh_inv c"
  then show ?thesis by (simp add: RefreshCurrent refresh_inv_def flag_refreshCurrentSection)
next
  case (Outside f)
  assume "refresh_inv c"
  then show ?thesis by (simp add: Outside refresh_inv_def)
qed

lemma refresh_events_inv: "refresh_inv c \<Longrightarrow> refresh_inv (refresh_events env evs c)"
  unfolding refresh_events_def
  by (induction evs arbitrary: c) (auto intro: refresh_step_inv)

text \<open>The pieces, run one after the other with nothing in between, are the function.\<close>

lemma run_advance_completes:
  "run_completes env (run_advance env a secs s)
     (case refreshSections env secs s of
        (s2, Inl e) \<Rightarrow> run_finish_error env e s2
      | (s2, Inr _) \<Rightarrow> run_finish_ok a s2)"
proof (induction secs arbitrary: s)
  case Nil
  show ?case by (simp add: run_completes.intros)
next
  case (Cons sec rest)
  obtain s1 b where h: "shouldRefresh env sec s = (s1, b)" by (cases "shouldRefresh env sec s")
  show ?case
  proof (cases b)
    case False
    with h Cons.IH [of s1] show ?thesis by simp
  next
    case True
    obtain s2 c where rs: "refreshSection env sec s1 = (s2, c)"
      by (cases "refreshSection env sec s1")
    show ?thesis
    proof (cases c)
      case (Inl e)
      with True h rs show ?thesis
        by (auto intro!: run_completes.intros)
    next
      case (Inr v)
      with True h rs Cons.IH [of "recordRefresh env sec s2"] show ?thesis
        by (auto intro!: run_completes.intros)
    qed
  qed
qed

lemma refreshAfterUserAction_as_run:
  "run_completes env (run_start env a t s) (fst (refreshAfterUserAction env a t s))"
proof (cases "isRefreshing (onDemandRefresh s)")
  case True
  then show ?thesis by (simp add: run_start_def refreshAfterUserAction_def run_completes.intros)
next
  case False
  let ?s1 = "console_log (''refresh after user action: '' @ a) (set_isRefreshing True s)"
  show ?thesis
  proof (cases "getSectionsToRefresh env a t ?s1")
    case (Inl e)
    with False show ?thesis
      by (simp add: run_start_def refreshAfterUserAction_def refreshAfterUserAction_try_def
                    run_finish_error_def run_completes.intros Let_def split: sum.splits)
  next
    case (Inr secs)
    with False run_advance_completes [of env a secs ?s1] show ?thesis
      by (auto simp: run_start_def refreshAfterUserAction_def refreshAfterUserAction_try_def
                    run_finish_error_def run_finish_ok_def Let_def split: prod.splits sum.splits)
  qed
qed

text \<open>
  Claim C2. At most one refresh run executes at a time. A call of
  \<^verbatim>\<open>refreshAfterUserAction\<close> that finds \<^verbatim>\<open>isRefreshing\<close> set returns at once: the page is
  as before but for one console line, so no refresh work was done. Hence, from a page
  with the flag clear and under every interleaving of calls, resumptions and outside
  activity, never more than one run is in flight, and while one is the flag is set.
\<close>

theorem refreshAfterUserAction_single_run:
  "(isRefreshing (onDemandRefresh s) \<longrightarrow>
      refreshAfterUserAction env actionType targetSection s
        = (console_log ''refresh in progress, skipping duplicate refresh'' s, Inr JUndefined))
   \<and> (\<not> isRefreshing (onDemandRefresh s0) \<longrightarrow>
        length (in_flight (refresh_events env events \<lparr>page = s0, in_flight = []\<rparr>)) \<le> 1
        \<and> (in_flight (refresh_events env events \<lparr>page = s0, in_flight = []\<rparr>) \<noteq> [] \<longrightarrow>
             isRefreshing (onDemandRefresh
               (page (refresh_events env events \<lparr>page = s0, in_flight = []\<rparr>)))))"
proof (intro conjI impI)
  assume "isRefreshing (onDemandRefresh s)"
  then show "refreshAfterUserAction env actionType targetSection s
        = (console_log ''refresh in progress, skipping duplicate refresh'' s, Inr JUndefined)"
    by (simp add: refreshAfterUserAction_def)
next
  let ?c = "refresh_events env events \<lparr>page = s0, in_flight = []\<rparr>"
  assume "\<not> isRefreshing (onDemandRefresh s0)"
  then have "refresh_inv \<lparr>page = s0, in_flight = []\<rparr>" by (simp add: refresh_inv_def)
  then have i: "refresh_inv ?c" by (rule refresh_events_inv)
  from i show "length (in_flight ?c) \<le> 1" by (simp add: refresh_inv_def)
  assume "in_flight ?c \<noteq> []"
  with i show "isRefreshing (onDemandRefresh (page ?c))" by (simp add: refresh_inv_def)
qed

theorem refreshAfterUserAction_single_run_witness:
  "isRefreshing (onDemandRefresh busy_window)
   \<and> refreshAfterUserAction (demo_env False (Inl (JsError ''TypeError'' ''Failed to fetch'')))
        ''create_registration'' None busy_window
      = (console_log ''refresh in progress, skipping duplicate refresh'' busy_window, Inr JUndefined)
   \<and> \<not> isRefreshing (onDemandRefresh (new_window ([] :: string list)))
   \<and> length (in_flight (refresh_events (demo_env False (Inl (JsError ''TypeError'' ''Failed to fetch'')))
        [Invoke ''create_registration'' None, Invoke ''cancel_registration'' None, RefreshCurrent,
         Resume 0, Invoke ''update_profile'' None]
        \<lparr>page = new_window [], in_flight = []\<rparr>)) \<le> 1"
proof -
  have b: "isRefreshing (onDemandRefresh busy_window)" by (simp add: busy_window_def)
  have n: "\<not> isRefreshing (onDemandRefresh (new_window ([] :: string list)))"
    by (simp add: new_window_def)
  from b n
    refreshAfterUserAction_single_run
      [of busy_window "demo_env False (Inl (JsError ''TypeError'' ''Failed to fetch''))"
          "''create_registration''" None "new_window []"
          "[Invoke ''create_registration'' None, Invoke ''cancel_registration'' None, RefreshCurrent,
            Resume 0, Invoke ''update_profile'' None]"]
  show ?thesis by simp
qed










section \<open>RealtimeSync\<close>

lemma triggerCallbacks_loop_world:
  "world (triggerCallbacks_loop callbacks result s)
     = foldl (\<lambda>w callback. fst (callback result w)) (world s) callbacks"
proof (induction callbacks arbitrary: s)
  case Nil
  show ?case by simp
next
  case (Cons cb cbs)
  obtain w' r where h: "cb result (world s) = (w', r)" by (cases "cb result (world s)")
  show ?case
    by (cases r) (simp_all add: call_extern_def h Cons.IH console_error_def)
qed

text \<open>
  Claim C4. \<^verbatim>\<open>triggerCallbacks\<close> always completes normally, and the world it leaves is
  the one obtained by calling every callback registered for the operation, in order,
  each on the world the one before it left, whether that one returned or threw: an
  exception of one callback is caught and the remaining callbacks are still called.
\<close>

theorem triggerCallbacks_calls_every_callback:
  "snd (triggerCallbacks operation result s) = Inr JUndefined
   \<and> world (fst (triggerCallbacks operation result s))
       = foldl (\<lambda>w callback. fst (callback result w)) (world s)
           (case syncCallbacks (realtimeSync s) operation of None \<Rightarrow> [] | Some l \<Rightarrow> l)"
  by (simp add: triggerCallbacks_def triggerCallbacks_loop_world)

theorem triggerCallbacks_calls_every_callback_witness:
  "snd (triggerCallbacks ''create_registration'' JNull demo_callbacks) = Inr JUndefined
   \<and> world (fst (triggerCallbacks ''create_registration'' JNull demo_callbacks))
       = [''first'', ''second'', ''third'']"
  using triggerCallbacks_calls_every_callback [of "''create_registration''" JNull demo_callbacks]
  by (simp add: demo_callbacks_def registerCallback_def new_window_def outside_ok_def
        outside_throws_def)

lemma pending_delete [simp]:
  "pendingOperations (realtimeSync (delete_pending i s)) = pendingOperations (realtimeSync s) - {i}"
  by (simp add: delete_pending_def)

lemma pending_add [simp]:
  "pendingOperations (realtimeSync (add_pending i s)) = insert i (pendingOperations (realtimeSync s))"
  by (simp add: add_pending_def)

lemma rs_console_log [simp]: "realtimeSync (console_log m s) = realtimeSync s"
  by (simp add: console_log_def)

lemma rs_showOperationStatus [simp]: "realtimeSync (showOperationStatus m t s) = realtimeSync s"
  by (simp add: showOperationStatus_def)

lemma rs_date_now: "date_now env s = (s', t) \<Longrightarrow> realtimeSync s' = realtimeSync s"
  by (auto simp: date_now_def split: prod.splits)

lemma executeOperation_try_removes:
  "executeOperation_try operationType operationId apiCall refreshCallback s = (s', Inr v)
     \<Longrightarrow> operationId \<notin> pendingOperations (realtimeSync s')"
  by (auto simp: executeOperation_try_def split: prod.splits sum.splits)

lemma executeOperation_removes_id:
  assumes "isEnabled (realtimeSync s)"
    and "date_now env s = (s0, now)"
    and "executeOperation env operationType apiCall refreshCallback s = (s', r)"
  shows "(operationType, now) \<notin> pendingOperations (realtimeSync s')"
proof -
  obtain s1 c where t: "executeOperation_try operationType (operationType, now) apiCall refreshCallback
                          (add_pending (operationType, now) s0) = (s1, c)"
    by (cases "executeOperation_try operationType (operationType, now) apiCall refreshCallback
                 (add_pending (operationType, now) s0)")
  show ?thesis
  proof (cases c)
    case (Inl e)
    with assms t show ?thesis by (auto simp: executeOperation_def Let_def split: sum.splits)
  next
    case (Inr v)
    with assms t
      executeOperation_try_removes [of operationType "(operationType, now)" apiCall refreshCallback _ s1 v]
    show ?thesis by (auto simp: executeOperation_def)
  qed
qed

text \<open>With sync enabled, \<^verbatim>\<open>executeOperation\<close> is its three pieces one after the other.\<close>

lemma executeOperation_as_pieces:
  assumes "isEnabled (realtimeSync s)"
  shows "executeOperation env operationType apiCall refreshCallback s =
     (case operation_begin env operationType s of
        (s1, tracked) \<Rightarrow>
          (case operation_awaits operationType apiCall refreshCallback s1 of
             (s2, Inr result) \<Rightarrow> (operation_succeed tracked s2, Inr result)
           | (s2, Inl e) \<Rightarrow> (operation_fail env tracked e s2, Inl (operation_fail_error env e))))"
  using assms
  by (auto simp: executeOperation_def executeOperation_try_def operation_begin_def
        operation_awaits_def operation_succeed_def operation_fail_def operation_fail_error_def
        waitForSync_def triggerCallbacks_def Let_def
      split: prod.splits sum.splits option.splits)

lemma remove_nth_Cons_Suc: "remove_nth (Suc i) (x # xs) = x # remove_nth i xs"
  by (simp add: remove_nth_def)

lemma remove_nth_Cons_0: "remove_nth 0 (x # xs) = xs"
  by (simp add: remove_nth_def)

lemma set_remove_nth: "set (remove_nth i xs) \<subseteq> set xs"
  unfolding remove_nth_def by (auto dest: in_set_takeD in_set_dropD)

lemma remove_nth_covers: "i < length xs \<Longrightarrow> set xs \<subseteq> insert (xs ! i) (set (remove_nth i xs))"
proof (induction xs arbitrary: i)
  case Nil
  then show ?case by simp
next
  case (Cons x xs)
  show ?case
  proof (cases i)
    case 0
    then show ?thesis by (auto simp: remove_nth_Cons_0)
  next
    case (Suc k)
    with Cons.prems have "k < length xs" by simp
    from Cons.IH [OF this] show ?thesis by (auto simp: Suc remove_nth_Cons_Suc)
  qed
qed

lemma remove_nth_keeps:
  "i < length xs \<Longrightarrow> x \<in> set xs \<Longrightarrow> x \<noteq> xs ! i \<Longrightarrow> x \<in> set (remove_nth i xs)"
  using remove_nth_covers [of i xs] by auto

lemma operation_step_inv: "operation_inv c \<Longrightarrow> operation_inv (operation_step env c ev)"
proof (cases ev)
  case (Begin t)
  assume i: "operation_inv c"
  show ?thesis
  proof (cases "isEnabled (realtimeSync (op_page c))")
    case False
    with i show ?thesis by (auto simp: Begin operation_begin_def operation_inv_def)
  next
    case True
    obtain s0 now where d: "date_now env (op_page c) = (s0, now)"
      by (cases "date_now env (op_page c)")
    from True i rs_date_now [OF d] show ?thesis
      by (auto simp: Begin operation_begin_def operation_inv_def d)
  qed
next
  case (Succeed n)
  assume i: "operation_inv c"
  show ?thesis
  proof (cases "n < length (op_in_flight c)")
    case False
    with i show ?thesis by (simp add: Succeed)
  next
    case True
    show ?thesis
    proof (cases "op_in_flight c ! n")
      case None
      with True i show ?thesis
        using remove_nth_keeps [of n "op_in_flight c"]
        by (auto simp: Succeed operation_inv_def operation_succeed_def)
    next
      case (Some k)
      with True i show ?thesis
        using remove_nth_keeps [of n "op_in_flight c"]
        by (auto simp: Succeed operation_inv_def operation_succeed_def)
    qed
  qed
next
  case (Fail n e)
  assume i: "operation_inv c"
  show ?thesis
  proof (cases "n < length (op_in_flight c)")
    case False
    with i show ?thesis by (simp add: Fail)
  next
    case True
    show ?thesis
    proof (cases "op_in_flight c ! n")
      case None
      with True i show ?thesis
        using remove_nth_keeps [of n "op_in_flight c"]
        by (auto simp: Fail operation_inv_def operation_fail_def Let_def split: sum.splits)
    next
      case (Some k)
      with True i show ?thesis
        using remove_nth_keeps [of n "op_in_flight c"]
        by (auto simp: Fail operation_inv_def operation_fail_def Let_def split: sum.splits)
    qed
  qed
next
  case (SetEnabled b)
  assume "operation_inv c"
  then show ?thesis by (simp add: SetEnabled operation_inv_def setEnabled_def)
next
  case (OutsideOp f)
  assume "operation_inv c"
  then show ?thesis by (simp add: OutsideOp operation_inv_def)
qed

lemma operation_events_inv: "operation_inv c \<Longrightarrow> operation_inv (operation_events env evs c)"
  unfolding operation_events_def
  by (induction evs arbitrary: c) (auto intro: operation_step_inv)

text \<open>
  Claim C9. With sync enabled, the operation id that \<^verbatim>\<open>executeOperation\<close> adds (the
  operation type with the time read at entry) is not in \<^verbatim>\<open>pendingOperations\<close> when the
  call completes, whether it returns or throws and whatever \<^verbatim>\<open>apiCall\<close> and the
  callbacks do; with sync disabled nothing is added and the call is \<^verbatim>\<open>apiCall\<close> alone.
  From a page with no pending operation and under every interleaving of operations,
  \<^verbatim>\<open>hasPendingOperations\<close> is false whenever no operation is in flight.
\<close>

theorem executeOperation_clears_pending:
  "(isEnabled (realtimeSync s) \<longrightarrow>
      (operationType, snd (date_now env s))
        \<notin> pendingOperations (realtimeSync (fst (executeOperation env operationType apiCall refreshCallback s))))
   \<and> (\<not> isEnabled (realtimeSync s) \<longrightarrow>
        executeOperation env operationType apiCall refreshCallback s = apiCall s)
   \<and> (pendingOperations (realtimeSync s0) = {} \<longrightarrow>
        op_in_flight (operation_events env events \<lparr>op_page = s0, op_in_flight = []\<rparr>) = [] \<longrightarrow>
        \<not> hasPendingOperations (op_page (operation_events env events \<lparr>op_page = s0, op_in_flight = []\<rparr>)))"
proof (intro conjI impI)
  assume "isEnabled (realtimeSync s)"
  then show "(operationType, snd (date_now env s))
        \<notin> pendingOperations (realtimeSync (fst (executeOperation env operationType apiCall refreshCallback s)))"
    using executeOperation_removes_id [of s env "fst (date_now env s)" "snd (date_now env s)"
            operationType apiCall refreshCallback
            "fst (executeOperation env operationType apiCall refreshCallback s)"
            "snd (executeOperation env operationType apiCall refreshCallback s)"]
    by simp
next
  assume "\<not> isEnabled (realtimeSync s)"
  then show "executeOperation env operationType apiCall refreshCallback s = apiCall s"
    by (simp add: executeOperation_def)
next
  let ?c = "operation_events env events \<lparr>op_page = s0, op_in_flight = []\<rparr>"
  assume e: "pendingOperations (realtimeSync s0) = {}" and n: "op_in_flight ?c = []"
  from e have "operation_inv \<lparr>op_page = s0, op_in_flight = []\<rparr>" by (simp add: operation_inv_def)
  then have "operation_inv ?c" by (rule operation_events_inv)
  with n show "\<not> hasPendingOperations (op_page ?c)"
    by (simp add: operation_inv_def hasPendingOperations_def)
qed

theorem executeOperation_clears_pending_witness:
  "isEnabled (realtimeSync (new_window ([] :: string list)))
   \<and> (''create_registration'', 1000)
        \<notin> pendingOperations (realtimeSync (fst (executeOperation
             (demo_env True (Inl (JsError ''TypeError'' ''Failed to fetch'')))
             ''create_registration'' (call_extern (outside_throws ''apiCall'')) None (new_window []))))
   \<and> \<not> isEnabled (realtimeSync (setEnabled False (new_window ([] :: string list))))
   \<and> executeOperation (demo_env True (Inl (JsError ''TypeError'' ''Failed to fetch'')))
        ''create_registration'' (call_extern (outside_throws ''apiCall'')) None
        (setEnabled False (new_window []))
      = call_extern (outside_throws ''apiCall'') (setEnabled False (new_window []))
   \<and> pendingOperations (realtimeSync (new_window ([] :: string list))) = {}
   \<and> op_in_flight (operation_events (demo_env True (Inl (JsError ''TypeError'' ''Failed to fetch'')))
        [Begin ''create_registration'', Begin ''cancel_registration'', Succeed 1,
         Fail 0 (JsError ''Error'' ''Request failed'')]
        \<lparr>op_page = new_window [], op_in_flight = []\<rparr>) = []
   \<and> \<not> hasPendingOperations (op_page (operation_events
        (demo_env True (Inl (JsError ''TypeError'' ''Failed to fetch'')))
        [Begin ''create_registration'', Begin ''cancel_registration'', Succeed 1,
         Fail 0 (JsError ''Error'' ''Request failed'')]
        \<lparr>op_page = new_window [], op_in_flight = []\<rparr>))"
proof -
  let ?env = "demo_env True (Inl (JsError ''TypeError'' ''Failed to fetch''))"
  let ?evs = "[Begin ''create_registration'', Begin ''cancel_registration'', Succeed 1,
               Fail 0 (JsError ''Error'' ''Request failed'')]"
  have en: "isEnabled (realtimeSync (new_window ([] :: string list)))"
    by (simp add: new_window_def)
  have dis: "\<not> isEnabled (realtimeSync (setEnabled False (new_window ([] :: string list))))"
    by (simp add: setEnabled_def new_window_def)
  have now: "snd (date_now ?env (new_window [])) = 1000"
    by (simp add: date_now_def demo_env_def new_window_def)
  have p: "pendingOperations (realtimeSync (new_window ([] :: string list))) = {}"
    by (simp add: new_window_def)
  have f: "op_in_flight (operation_events ?env ?evs \<lparr>op_page = new_window [], op_in_flight = []\<rparr>) = []"
    by (simp add: operation_events_def operation_begin_def new_window_def date_now_def
          demo_env_def showOperationStatus_def console_log_def add_pending_def remove_nth_def)
  from en dis now p f
    executeOperation_clears_pending
      [of "new_window []" "''create_registration''" ?env "call_extern (outside_throws ''apiCall'')"
          None "new_window []" ?evs]
    executeOperation_clears_pending
      [of "setEnabled False (new_window [])" "''create_registration''" ?env
          "call_extern (outside_throws ''apiCall'')" None "new_window []" ?evs]
  show ?thesis by simp
qed

text \<open>On a call with two arguments that are not \<^verbatim>\<open>null\<close>, both wrappers hand a request
  whose method is not POST, PUT or DELETE to the original.\<close>

lemma wrappers_pass_two_arguments_through:
  assumes "options_method (default_options options) = Inr method"
    and "\<not> isModifyingOperation method"
  shows "wrapApiRequest env originalApiRequest endpoint options body s
           = originalApiRequest endpoint (default_options options) JUndefined s
       \<and> wrapApiForInstantResponse env originalApiRequest endpoint options body s
           = originalApiRequest endpoint (default_options options) JUndefined s"
  using assms by (simp add: wrapApiRequest_def wrapApiForInstantResponse_def)

text \<open>
  Claim C8 says that for every request whose method is not POST, PUT or DELETE the
  function made by \<^verbatim>\<open>wrapApiRequest\<close> or \<^verbatim>\<open>wrapApiForInstantResponse\<close> returns exactly
  the result of the original \<^verbatim>\<open>apiRequest\<close> on the same arguments. The wrappers break
  this on two calls that \<^verbatim>\<open>apiRequest\<close> serves. In the three-argument form of config.js
  lines 46-48, here a PATCH with a body, the original sends the body and the wrappers
  send none. With \<^verbatim>\<open>null\<close> for the options the original sends the request and returns
  its result, and the wrappers throw a TypeError before any request is sent.
\<close>

theorem wrapped_apiRequest_differs_from_original:
  "world (fst (apiRequest recording_env ''/doctor/search'' (OptionsString ''PATCH'')
                 (JObj [(''name'', JStr ''li'')]) (new_window [])))
     = [''fetch method=PATCH body={}'']
   \<and> world (fst (wrapApiRequest recording_env (apiRequest recording_env)
                   ''/doctor/search'' (OptionsString ''PATCH'')
                   (JObj [(''name'', JStr ''li'')]) (new_window [])))
       = [''fetch method=PATCH body=(none)'']
   \<and> world (fst (wrapApiForInstantResponse recording_env (apiRequest recording_env)
                   ''/doctor/search'' (OptionsString ''PATCH'')
                   (JObj [(''name'', JStr ''li'')]) (new_window [])))
       = [''fetch method=PATCH body=(none)'']
   \<and> apiRequest recording_env ''/departments'' OptionsNull JUndefined (new_window [])
       = ((new_window [''fetch method=(none) body=(none)''])
            \<lparr>console := [ConsoleLog ''API Request: http://127.0.0.1:50002/api/departments'',
                          ConsoleLog ''API Response Status'', ConsoleLog ''API Response Data'']\<rparr>,
          Inr (JStr ''done''))
   \<and> wrapApiRequest recording_env (apiRequest recording_env)
         ''/departments'' OptionsNull JUndefined (new_window [])
       = (new_window [],
          Inl (JsError ''TypeError'' ''Cannot read properties of null (reading method)''))
   \<and> wrapApiForInstantResponse recording_env (apiRequest recording_env)
         ''/departments'' OptionsNull JUndefined (new_window [])
       = (new_window [],
          Inl (JsError ''TypeError'' ''Cannot read properties of null (reading method)''))"
proof -
  have m: "\<not> isModifyingOperation ''GET''" by code_simp
  have a: "\<And>body. world (fst (apiRequest recording_env ''/doctor/search'' (OptionsString ''PATCH'')
                 body (new_window [])))
     = [''fetch method=PATCH body='' @ (if truthy body then ''{}'' else ''(none)'')]"
    by (simp add: apiRequest_def recording_env_def demo_env_def request_options_def
          merged_options_def new_window_def console_log_def Let_def)
  have w: "\<And>body. wrapApiRequest recording_env (apiRequest recording_env)
              ''/doctor/search'' (OptionsString ''PATCH'') body (new_window [])
            = apiRequest recording_env ''/doctor/search'' (OptionsString ''PATCH'') JUndefined
                (new_window [])"
    and i: "\<And>body. wrapApiForInstantResponse recording_env (apiRequest recording_env)
              ''/doctor/search'' (OptionsString ''PATCH'') body (new_window [])
            = apiRequest recording_env ''/doctor/search'' (OptionsString ''PATCH'') JUndefined
                (new_window [])"
    using m by (simp_all add: wrapApiRequest_def wrapApiForInstantResponse_def
                  default_options_def options_method_def)
  have n: "apiRequest recording_env ''/departments'' OptionsNull JUndefined (new_window [])
       = ((new_window [''fetch method=(none) body=(none)''])
            \<lparr>console := [ConsoleLog ''API Request: http://127.0.0.1:50002/api/departments'',
                          ConsoleLog ''API Response Status'', ConsoleLog ''API Response Data'']\<rparr>,
          Inr (JStr ''done''))"
    by (simp add: apiRequest_def recording_env_def demo_env_def request_options_def
          merged_options_def new_window_def console_log_def Let_def getApiUrl_def API_BASE_URL_def)
  have t: "wrapApiRequest recording_env (apiRequest recording_env)
         ''/departments'' OptionsNull JUndefined (new_window [])
       = (new_window [],
          Inl (JsError ''TypeError'' ''Cannot read properties of null (reading method)''))"
    "wrapApiForInstantResponse recording_env (apiRequest recording_env)
         ''/departments'' OptionsNull JUndefined (new_window [])
       = (new_window [],
          Inl (JsError ''TypeError'' ''Cannot read properties of null (reading method)''))"
    by (simp_all add: wrapApiRequest_def wrapApiForInstantResponse_def default_options_def
          options_method_def)
  show ?thesis
    unfolding w i by (simp add: a n t)
qed

section \<open>InstantResponse\<close>

text \<open>
  Claim C5, as stated, says that the write is confirmed by a real validation of its
  outcome before it is trusted. Take a world that is the acknowledgement of the stores,
  here \<open>False\<close>: no store has acknowledged the write. \<^verbatim>\<open>backgroundSync\<close> still reports
  the validation as passed and discards the record kept for the rollback.
\<close>

theorem backgroundSync_trusts_unacknowledged_counterexample:
  "\<not> world (new_window False)
   \<and> backgroundSync
        \<lparr>Date_now = (\<lambda>w. (w, 0)), sleep = (\<lambda>ms w. w),
         fetch = (\<lambda>url init w. (w, Inl (JsError ''TypeError'' ''Failed to fetch''))),
         JSON_stringify = (\<lambda>v. []), String_of = (\<lambda>v. []),
         loadRegistrations = None, loadDepartments = None, loadProfile = None,
         loadDoctors = None, onDeptSelect = None,
         activeSectionId = (\<lambda>w. None), deptSelectValue = (\<lambda>w. False),
         onDemandRefreshInstalled = True\<rparr>
        7 ''POST /registrations''
        (set_optimisticUpdate 7
           \<lparr>rollbackFunction = Some RollbackRefreshCurrentSection, ou_result = JNull\<rparr>
           (new_window False))
      = (console_log ''background sync validated'' (new_window False), Inr JUndefined)"
  by (simp add: backgroundSync_def validateOperation_def set_optimisticUpdate_def
        delete_optimisticUpdate_def new_window_def console_log_def)

text \<open>
  Claim C5, amended. After a modifying operation nothing about the write is checked:
  \<^verbatim>\<open>validateOperation\<close> answers true for every operation on every page and leaves the
  page as it is, \<^verbatim>\<open>waitForSync\<close> returns at once, and \<^verbatim>\<open>backgroundSync\<close>, after its
  fixed timer of 100 ms, always logs the validation as passed and deletes the record of
  the optimistic update, without calling the rollback function.
\<close>

theorem backgroundSync_assumes_success:
  "validateOperation operation s = (s, Inr (JBool True))
   \<and> waitForSync timeout s = (s, Inr JUndefined)
   \<and> backgroundSync env operationId operation s
       = (console_log ''background sync validated''
            (delete_optimisticUpdate operationId (s\<lparr>world := sleep env 100 (world s)\<rparr>)),
          Inr JUndefined)"
  by (simp add: validateOperation_def waitForSync_def backgroundSync_def)

lemma refreshRelevantData_returns: "snd (refreshRelevantData env operationType s) = Inr JUndefined"
  by (simp add: refreshRelevantData_def split: prod.splits sum.splits)

lemma rollbackOperation_returns: "snd (rollbackOperation env operationId s) = Inr JUndefined"
  by (simp add: rollbackOperation_def Let_def)

lemma ir_console_log [simp]: "instantResponse (console_log m s) = instantResponse s"
  by (simp add: console_log_def)

lemma ir_console_error [simp]: "instantResponse (console_error m e s) = instantResponse s"
  by (simp add: console_error_def)

lemma executeOperation_returns_result:
  assumes en: "isEnabled (realtimeSync s)"
    and a: "\<And>x. snd (apiCall x) = Inr v"
    and r: "\<And>x. snd (refresh x) = Inr JUndefined"
  shows "snd (executeOperation env operationType apiCall (Some refresh) s) = Inr v"
proof -
  obtain s0 now where d: "date_now env s = (s0, now)" by (cases "date_now env s")
  define s1 where "s1 = showOperationStatus ''in progress...'' ''info'' (add_pending (operationType, now) s0)"
  obtain s2 where s2: "apiCall s1 = (s2, Inr v)" using a [of s1] by (cases "apiCall s1") simp
  obtain s3 where s3: "refresh s2 = (s3, Inr JUndefined)" using r [of s2] by (cases "refresh s2") simp
  have "executeOperation_try operationType (operationType, now) apiCall (Some refresh)
          (add_pending (operationType, now) s0)
        = (delete_pending (operationType, now)
             (showOperationStatus ''operation succeeded, data updated'' ''success''
                (fst (triggerCallbacks operationType v s3))), Inr v)"
    using s2 s3 unfolding s1_def
    by (simp add: executeOperation_try_def waitForSync_def triggerCallbacks_def)
  with en d show ?thesis by (simp add: executeOperation_def)
qed

text \<open>
  Claim C6, as stated, says that a failure while refreshing after an operation reaches
  the recorded outcome as an error value. With a loader that throws,
  \<^verbatim>\<open>refreshRelevantData\<close> completes normally, and \<^verbatim>\<open>executeOperation\<close> around it
  returns the result of the API call as for a refresh that worked.
\<close>

theorem refreshRelevantData_swallows_counterexample:
  "snd (call_if_function
          (loadRegistrations (demo_env True (Inl (JsError ''TypeError'' ''Failed to fetch''))))
          (new_window []))
     = Inl (JsError ''Error'' ''loadRegistrations failed'')
   \<and> snd (refreshRelevantData (demo_env True (Inl (JsError ''TypeError'' ''Failed to fetch'')))
            ''create_registration'' (new_window []))
     = Inr JUndefined
   \<and> snd (executeOperation (demo_env True (Inl (JsError ''TypeError'' ''Failed to fetch'')))
            ''create_registration'' (\<lambda>s. (s, Inr (JStr ''created'')))
            (Some (refreshRelevantData (demo_env True (Inl (JsError ''TypeError'' ''Failed to fetch'')))
                     ''create_registration''))
            (new_window []))
     = Inr (JStr ''created'')"
proof (intro conjI)
  let ?env = "demo_env True (Inl (JsError ''TypeError'' ''Failed to fetch''))"
  show "snd (call_if_function (loadRegistrations ?env) (new_window []))
          = Inl (JsError ''Error'' ''loadRegistrations failed'')"
    by (simp add: new_window_def demo_env_def call_if_function_def call_extern_def
          outside_throws_def)
  show "snd (refreshRelevantData ?env ''create_registration'' (new_window [])) = Inr JUndefined"
    by (rule refreshRelevantData_returns)
  have "isEnabled (realtimeSync (new_window ([] :: string list)))" by (simp add: new_window_def)
  then show "snd (executeOperation ?env ''create_registration'' (\<lambda>s. (s, Inr (JStr ''created'')))
          (Some (refreshRelevantData ?env ''create_registration'')) (new_window []))
        = Inr (JStr ''created'')"
    by (rule executeOperation_returns_result) (simp_all add: refreshRelevantData_returns)
qed

text \<open>
  Claim C6, amended. A failure while refreshing data after an operation, or while
  rolling an operation back, is caught and written to the console, and nothing else
  records it: \<^verbatim>\<open>refreshRelevantData\<close> and \<^verbatim>\<open>rollbackOperation\<close> always complete
  normally; when the refresh fails the page is the one the failure left plus one console
  error; when the rollback function fails the page is the one the failure left plus one
  console error, with the record of the optimistic update deleted.
\<close>

theorem refresh_and_rollback_failures_stay_in_console:
  "snd (refreshRelevantData env operationType s) = Inr JUndefined
   \<and> (refreshRelevantData_try env operationType s = (s1, Inl error) \<longrightarrow>
         refreshRelevantData env operationType s
           = (console_error ''refreshing data failed'' error s1, Inr JUndefined))
   \<and> snd (rollbackOperation env operationId s) = Inr JUndefined
   \<and> (optimisticUpdates (instantResponse s) operationId = Some update \<longrightarrow>
         rollbackFunction update = Some f \<longrightarrow>
         call_rollback env f s = (s2, Inl error2) \<longrightarrow>
         rollbackOperation env operationId s
           = (delete_optimisticUpdate operationId (console_error ''rollback failed'' error2 s2),
              Inr JUndefined))"
  by (simp add: refreshRelevantData_returns rollbackOperation_returns)
     (simp add: refreshRelevantData_def rollbackOperation_def)

theorem refresh_and_rollback_failures_stay_in_console_witness:
  "refreshRelevantData_try (demo_env True (Inl (JsError ''TypeError'' ''Failed to fetch'')))
       ''create_registration'' (new_window [])
     = ((new_window [])\<lparr>world := [''loadRegistrations'']\<rparr>,
        Inl (JsError ''Error'' ''loadRegistrations failed''))
   \<and> refreshRelevantData (demo_env True (Inl (JsError ''TypeError'' ''Failed to fetch'')))
       ''create_registration'' (new_window [])
     = (console_error ''refreshing data failed'' (JsError ''Error'' ''loadRegistrations failed'')
          ((new_window [])\<lparr>world := [''loadRegistrations'']\<rparr>),
        Inr JUndefined)
   \<and> optimisticUpdates (instantResponse
         (set_optimisticUpdate 7
            \<lparr>rollbackFunction = Some (RollbackExtern (outside_throws ''rollback'')), ou_result = JNull\<rparr>
            (new_window []))) 7
     = Some \<lparr>rollbackFunction = Some (RollbackExtern (outside_throws ''rollback'')), ou_result = JNull\<rparr>
   \<and> rollbackOperation (demo_env True (Inl (JsError ''TypeError'' ''Failed to fetch''))) 7
         (set_optimisticUpdate 7
            \<lparr>rollbackFunction = Some (RollbackExtern (outside_throws ''rollback'')), ou_result = JNull\<rparr>
            (new_window []))
     = (delete_optimisticUpdate 7
          (console_error ''rollback failed'' (JsError ''Error'' ''rollback failed'')
             ((set_optimisticUpdate 7
                 \<lparr>rollbackFunction = Some (RollbackExtern (outside_throws ''rollback'')), ou_result = JNull\<rparr>
                 (new_window []))\<lparr>world := [''rollback'']\<rparr>)),
        Inr JUndefined)"
proof -
  let ?env = "demo_env True (Inl (JsError ''TypeError'' ''Failed to fetch''))"
  let ?u = "\<lparr>rollbackFunction = Some (RollbackExtern (outside_throws ''rollback'')), ou_result = JNull\<rparr>"
  let ?s = "set_optimisticUpdate 7 ?u (new_window ([] :: string list))"
  have t: "refreshRelevantData_try ?env ''create_registration'' (new_window [])
             = ((new_window [])\<lparr>world := [''loadRegistrations'']\<rparr>,
                Inl (JsError ''Error'' ''loadRegistrations failed''))"
    by (simp add: refreshRelevantData_try_def refreshRelevantData_switch_def demo_env_def
          call_if_function_def call_extern_def outside_throws_def new_window_def)
  have u: "optimisticUpdates (instantResponse ?s) 7 = Some ?u"
    by (simp add: set_optimisticUpdate_def)
  have f: "rollbackFunction ?u = Some (RollbackExtern (outside_throws ''rollback''))"
    by simp
  have c: "call_rollback ?env (RollbackExtern (outside_throws ''rollback'')) ?s
             = (?s\<lparr>world := [''rollback'']\<rparr>, Inl (JsError ''Error'' ''rollback failed''))"
    by (simp add: call_rollback_def call_extern_def outside_throws_def set_optimisticUpdate_def
          new_window_def)
  from t u f c
    refresh_and_rollback_failures_stay_in_console
      [where env = ?env and operationType = "''create_registration''" and s = "new_window []"
         and ?s1.0 = "(new_window [])\<lparr>world := [''loadRegistrations'']\<rparr>"
         and error = "JsError ''Error'' ''loadRegistrations failed''"]
    refresh_and_rollback_failures_stay_in_console
      [where env = ?env and s = ?s and operationId = 7 and update = ?u
         and f = "RollbackExtern (outside_throws ''rollback'')"
         and ?s2.0 = "?s\<lparr>world := [''rollback'']\<rparr>"
         and ?error2.0 = "JsError ''Error'' ''rollback failed''"]
  show ?thesis by simp
qed


section \<open>apiRequest\<close>

lemma apiRequest_fetched:
  assumes "fetch env (getApiUrl endpoint)
             (merged_options (console_log (''API Request: '' @ getApiUrl endpoint) s)
                (request_options env methodOrOptions body)) (world s) = (w, Inr response)"
  shows "apiRequest env endpoint methodOrOptions body s =
     (let s3 = console_log ''API Response Status''
                 ((console_log (''API Request: '' @ getApiUrl endpoint) s)\<lparr>world := w\<rparr>)
      in if status response = 401 then
           ((removeItem ''user_id'' (removeItem ''username''
               (removeItem ''role'' (removeItem ''token'' s3))))\<lparr>location_href := ''login.html''\<rparr>,
            Inr JUndefined)
         else
           (case json response of
              Inl e \<Rightarrow> (s3, Inl e)
            | Inr data \<Rightarrow>
                (let s4 = console_log ''API Response Data'' s3
                 in if \<not> ok response then
                      (case get_error_property data of
                         Inl e \<Rightarrow> (s4, Inl e)
                       | Inr v \<Rightarrow>
                           (s4, Inl (JsError ''Error''
                              (if truthy v then error_message env v else ''Request failed''))))
                    else (s4, Inr data))))"
  using assms by (simp add: apiRequest_def Let_def console_log_def)

text \<open>
  Claim C10, as stated, says that for a status other than 401 \<^verbatim>\<open>apiRequest\<close> throws
  exactly when \<^verbatim>\<open>response.ok\<close> is false and otherwise returns the parsed body. For a
  response with status 204, \<^verbatim>\<open>ok\<close> true and a body that is not JSON,
  \<^verbatim>\<open>response.json()\<close> rejects and \<^verbatim>\<open>apiRequest\<close> throws although \<^verbatim>\<open>ok\<close> is true.
\<close>

theorem apiRequest_throws_on_ok_response_counterexample:
  "snd (apiRequest
          (demo_env False
             (Inr \<lparr>status = 204, ok = True,
                   json = Inl (JsError ''SyntaxError'' ''Unexpected end of JSON input'')\<rparr>))
          ''/admin/users/patient/3''
          (OptionsObject \<lparr>req_method = Some ''DELETE'', req_body = None, req_headers = None\<rparr>)
          JNull (new_window []))
     = Inl (JsError ''SyntaxError'' ''Unexpected end of JSON input'')"
  by (simp add: apiRequest_def demo_env_def Let_def)

text \<open>
  Claim C10, amended. When \<^verbatim>\<open>fetch\<close> resolves to a response: if its status is 401,
  \<^verbatim>\<open>apiRequest\<close> removes \<^verbatim>\<open>token\<close>, \<^verbatim>\<open>role\<close>, \<^verbatim>\<open>username\<close> and \<^verbatim>\<open>user_id\<close> from
  \<^verbatim>\<open>localStorage\<close>, sets the location to \<^verbatim>\<open>login.html\<close> and returns \<^verbatim>\<open>undefined\<close>,
  whatever the body is. For every other status it reads the body as JSON: if that
  fails, it throws that error, whether \<^verbatim>\<open>ok\<close> is true or false; if it succeeds, it
  throws exactly when \<^verbatim>\<open>ok\<close> is false and otherwise returns the parsed body.
\<close>

theorem apiRequest_outcome:
  assumes "fetch env (getApiUrl endpoint)
             (merged_options (console_log (''API Request: '' @ getApiUrl endpoint) s)
                (request_options env methodOrOptions body)) (world s) = (w, Inr response)"
  shows "(status response = 401 \<longrightarrow>
            snd (apiRequest env endpoint methodOrOptions body s) = Inr JUndefined
            \<and> location_href (fst (apiRequest env endpoint methodOrOptions body s)) = ''login.html''
            \<and> localStorage (fst (apiRequest env endpoint methodOrOptions body s))
                = (localStorage s)(''token'' := None, ''role'' := None,
                                   ''username'' := None, ''user_id'' := None))
       \<and> (status response \<noteq> 401 \<longrightarrow>
            (json response = Inl e \<longrightarrow>
               snd (apiRequest env endpoint methodOrOptions body s) = Inl e)
            \<and> (json response = Inr data \<longrightarrow>
                 (ok response \<longrightarrow>
                    snd (apiRequest env endpoint methodOrOptions body s) = Inr data)
                 \<and> (\<not> ok response \<longrightarrow>
                      isl (snd (apiRequest env endpoint methodOrOptions body s)))))"
  unfolding apiRequest_fetched [OF assms]
  by (auto simp: Let_def removeItem_def console_log_def split: sum.splits)

theorem apiRequest_outcome_witness:
  "snd (apiRequest (demo_env False (Inr \<lparr>status = 401, ok = False, json = Inr JNull\<rparr>))
          ''/patient/registrations'' no_options JNull
          ((new_window [])\<lparr>localStorage := [''token'' \<mapsto> ''t0'', ''role'' \<mapsto> ''patient'',
                                             ''theme'' \<mapsto> ''dark'']\<rparr>)) = Inr JUndefined
   \<and> localStorage (fst (apiRequest (demo_env False (Inr \<lparr>status = 401, ok = False, json = Inr JNull\<rparr>))
          ''/patient/registrations'' no_options JNull
          ((new_window [])\<lparr>localStorage := [''token'' \<mapsto> ''t0'', ''role'' \<mapsto> ''patient'',
                                             ''theme'' \<mapsto> ''dark'']\<rparr>))) ''theme'' = Some ''dark''
   \<and> localStorage (fst (apiRequest (demo_env False (Inr \<lparr>status = 401, ok = False, json = Inr JNull\<rparr>))
          ''/patient/registrations'' no_options JNull
          ((new_window [])\<lparr>localStorage := [''token'' \<mapsto> ''t0'', ''role'' \<mapsto> ''patient'',
                                             ''theme'' \<mapsto> ''dark'']\<rparr>))) ''token'' = None
   \<and> snd (apiRequest (demo_env False (Inr \<lparr>status = 200, ok = True, json = Inr (JStr ''[]'')\<rparr>))
          ''/departments'' no_options JNull (new_window [])) = Inr (JStr ''[]'')
   \<and> isl (snd (apiRequest
          (demo_env False (Inr \<lparr>status = 400, ok = False,
                                json = Inr (JObj [(''error'', JStr ''slot taken'')])\<rparr>))
          ''/register'' no_options JNull (new_window [])))
   \<and> snd (apiRequest
          (demo_env False (Inr \<lparr>status = 502, ok = False,
                                json = Inl (JsError ''SyntaxError'' ''Unexpected token'')\<rparr>))
          ''/departments'' no_options JNull (new_window []))
       = Inl (JsError ''SyntaxError'' ''Unexpected token'')"
proof -
  let ?s = "(new_window ([] :: string list))\<lparr>localStorage := [''token'' \<mapsto> ''t0'', ''role'' \<mapsto> ''patient'',
                                             ''theme'' \<mapsto> ''dark'']\<rparr>"
  have f: "\<And>resp endpoint s. fetch (demo_env False (Inr resp)) (getApiUrl endpoint)
             (merged_options (console_log (''API Request: '' @ getApiUrl endpoint) s)
                (request_options (demo_env False (Inr resp)) no_options JNull)) (world s)
             = (world s @ [''fetch''], Inr resp)"
    by (simp add: demo_env_def)
  from
    apiRequest_outcome
      [OF f, of "\<lparr>status = 401, ok = False, json = Inr JNull\<rparr>" "''/patient/registrations''" ?s]
    apiRequest_outcome
      [OF f, of "\<lparr>status = 200, ok = True, json = Inr (JStr ''[]'')\<rparr>" "''/departments''"
          "new_window []" _ "JStr ''[]''"]
    apiRequest_outcome
      [OF f, of "\<lparr>status = 400, ok = False, json = Inr (JObj [(''error'', JStr ''slot taken'')])\<rparr>"
          "''/register''" "new_window []" _ "JObj [(''error'', JStr ''slot taken'')]"]
    apiRequest_outcome
      [OF f, of "\<lparr>status = 502, ok = False, json = Inl (JsError ''SyntaxError'' ''Unexpected token'')\<rparr>"
          "''/departments''" "new_window []" "JsError ''SyntaxError'' ''Unexpected token''"]
  show ?thesis by simp
qed


section \<open>Conflict resolution\<close>

lemma beats_irrefl: "\<not> beats a a"
  by (auto simp: beats_def)

lemma beats_neg_trans: "\<not> beats a b \<Longrightarrow> \<not> beats b c \<Longrightarrow> \<not> beats a c"
  by (auto simp: beats_def)

lemma beats_total:
  "\<not> beats a b \<Longrightarrow> \<not> beats b a \<Longrightarrow>
     updated_at (snd a) = updated_at (snd b) \<and> priority_rank (fst a) = priority_rank (fst b)
     \<and> store_id (fst a) = store_id (fst b)"
  by (auto simp: beats_def)

lemma foldl_winner_in:
  "foldl (\<lambda>w y. if beats y w then y else w) x xs \<in> set (x # xs)"
  by (induction xs arbitrary: x) auto

lemma foldl_winner_best:
  "y \<in> set (x # xs) \<Longrightarrow> \<not> beats y (foldl (\<lambda>w y. if beats y w then y else w) x xs)"
proof (induction xs arbitrary: x y)
  case Nil
  then show ?case by (simp add: beats_irrefl)
next
  case (Cons z zs)
  let ?x' = "if beats z x then z else x"
  let ?r = "foldl (\<lambda>w y. if beats y w then y else w) ?x' zs"
  have r: "\<And>u. u \<in> set (?x' # zs) \<Longrightarrow> \<not> beats u ?r" using Cons.IH by blast
  have x': "\<not> beats ?x' ?r" using r by simp
  have xz: "\<not> beats x ?x'" "\<not> beats z ?x'"
    by (auto simp: beats_def)
  have fx: "\<not> beats x ?r" using beats_neg_trans [OF xz(1) x'] .
  have fz: "\<not> beats z ?r" using beats_neg_trans [OF xz(2) x'] .
  have fzs: "\<And>u. u \<in> set zs \<Longrightarrow> \<not> beats u ?r" using r by simp
  have unfold: "foldl (\<lambda>w y. if beats y w then y else w) x (z # zs) = ?r" by simp
  from Cons.prems consider "y = x" | "y = z" | "y \<in> set zs" by auto
  then show ?case
  proof cases
    case 1
    with fx show ?thesis unfolding unfold by simp
  next
    case 2
    with fz show ?thesis unfolding unfold by simp
  next
    case 3
    with fzs show ?thesis unfolding unfold by simp
  qed
qed

lemma winner_in: "latest_timestamp_winner xs = Some w \<Longrightarrow> w \<in> set xs"
proof (cases xs)
  case Nil
  assume "latest_timestamp_winner xs = Some w"
  with Nil show ?thesis by simp
next
  case (Cons x zs)
  assume "latest_timestamp_winner xs = Some w"
  with Cons have "w = foldl (\<lambda>w y. if beats y w then y else w) x zs" by simp
  with foldl_winner_in [of x zs] Cons show ?thesis by simp
qed

lemma winner_best: "latest_timestamp_winner xs = Some w \<Longrightarrow> y \<in> set xs \<Longrightarrow> \<not> beats y w"
proof (cases xs)
  case Nil
  assume "y \<in> set xs"
  with Nil show ?thesis by simp
next
  case (Cons x zs)
  assume "latest_timestamp_winner xs = Some w" and y: "y \<in> set xs"
  with Cons have "w = foldl (\<lambda>w y. if beats y w then y else w) x zs" by simp
  with foldl_winner_best [of y x zs] Cons y show ?thesis by simp
qed

lemma winner_some: "xs \<noteq> [] \<Longrightarrow> \<exists>w. latest_timestamp_winner xs = Some w"
  by (cases xs) auto

lemma winner_unique:
  assumes "inj_on (\<lambda>x. store_id (fst x)) (set xs)"
    and "w \<in> set xs" "w' \<in> set xs"
    and "\<forall>y\<in>set xs. \<not> beats y w" "\<forall>y\<in>set xs. \<not> beats y w'"
  shows "w = w'"
proof -
  have "\<not> beats w w'" "\<not> beats w' w" using assms by auto
  then have "store_id (fst w) = store_id (fst w')" using beats_total by blast
  with assms(1,2,3) show ?thesis by (auto dest: inj_onD)
qed

text \<open>
  Claim C7. Under \<^verbatim>\<open>latest_timestamp\<close>, for conflicting snapshots (at least one, one per
  store) a winner is chosen among them; no snapshot has a greater \<open>updated_at\<close>; among
  the snapshots with the winner's \<open>updated_at\<close> none has a better priority rank, and
  among those of the winner's rank none has a store id before the winner's; and the
  same winner is chosen from the same snapshots in whatever order a run presents them.
\<close>

theorem latest_timestamp_winner_deterministic:
  assumes "xs \<noteq> []"
    and "inj_on (\<lambda>x. store_id (fst x)) (set xs)"
  shows "\<exists>w. latest_timestamp_winner xs = Some w \<and> w \<in> set xs
          \<and> (\<forall>y\<in>set xs. updated_at (snd y) \<le> updated_at (snd w))
          \<and> (\<forall>y\<in>set xs. updated_at (snd y) = updated_at (snd w) \<longrightarrow>
                priority_rank (fst w) \<le> priority_rank (fst y)
                \<and> (priority_rank (fst y) = priority_rank (fst w) \<longrightarrow>
                      store_id (fst w) \<le> store_id (fst y)))
          \<and> (\<forall>ys. set ys = set xs \<longrightarrow> latest_timestamp_winner ys = Some w)"
proof -
  obtain w where w: "latest_timestamp_winner xs = Some w" using winner_some [OF assms(1)] by blast
  have win: "w \<in> set xs" using winner_in [OF w] .
  have best: "\<forall>y\<in>set xs. \<not> beats y w" using winner_best [OF w] by blast
  have a: "\<forall>y\<in>set xs. updated_at (snd y) \<le> updated_at (snd w)"
    using best by (auto simp: beats_def)
  have b: "\<forall>y\<in>set xs. updated_at (snd y) = updated_at (snd w) \<longrightarrow>
                priority_rank (fst w) \<le> priority_rank (fst y)
                \<and> (priority_rank (fst y) = priority_rank (fst w) \<longrightarrow>
                      store_id (fst w) \<le> store_id (fst y))"
    using best by (auto simp: beats_def)
  have c: "\<forall>ys. set ys = set xs \<longrightarrow> latest_timestamp_winner ys = Some w"
  proof (intro allI impI)
    fix ys :: "'a snapshot list"
    assume s: "set ys = set xs"
    with assms(1) have "ys \<noteq> []" by auto
    then obtain w' where w': "latest_timestamp_winner ys = Some w'" using winner_some by blast
    have "w' \<in> set xs" using winner_in [OF w'] s by simp
    moreover have "\<forall>y\<in>set xs. \<not> beats y w'" using winner_best [OF w'] s by blast
    ultimately have "w = w'" using winner_unique [OF assms(2) win _ best] by blast
    with w' show "latest_timestamp_winner ys = Some w" by simp
  qed
  from w win a b c show ?thesis by blast
qed

theorem latest_timestamp_winner_deterministic_witness:
  "demo_snapshots \<noteq> []
   \<and> inj_on (\<lambda>x. store_id (fst x)) (set demo_snapshots)
   \<and> latest_timestamp_winner demo_snapshots
       = Some (\<lparr>store_id = ''mysql'', reachable = True, priority_rank = 2\<rparr>,
               \<lparr>attributes = ''cancelled'', updated_at = 105, origin_store = ''mysql''\<rparr>)
   \<and> latest_timestamp_winner (rev demo_snapshots) = latest_timestamp_winner demo_snapshots"
proof -
  have n: "demo_snapshots \<noteq> []" by (simp add: demo_snapshots_def)
  have i: "inj_on (\<lambda>x. store_id (fst x)) (set demo_snapshots)"
    by (simp add: demo_snapshots_def)
  have v: "latest_timestamp_winner demo_snapshots
       = Some (\<lparr>store_id = ''mysql'', reachable = True, priority_rank = 2\<rparr>,
               \<lparr>attributes = ''cancelled'', updated_at = 105, origin_store = ''mysql''\<rparr>)"
    by (simp add: demo_snapshots_def beats_def)
  from latest_timestamp_winner_deterministic [OF n i]
  obtain w where w: "latest_timestamp_winner demo_snapshots = Some w"
    and o: "\<forall>ys. set ys = set demo_snapshots \<longrightarrow> latest_timestamp_winner ys = Some w" by blast
  from o have "latest_timestamp_winner (rev demo_snapshots) = Some w" by simp
  with w n i v show ?thesis by simp
qed


section \<open>The sync pass\<close>

lemma currentState_apply_other:
  "j \<noteq> ident \<Longrightarrow> currentState (apply_record j r st) ident = currentState st ident"
proof -
  assume ne: "j \<noteq> ident"
  have "map_of (filter (\<lambda>row. fst row \<noteq> j) xs) ident = map_of xs ident" for xs :: "(identity \<times> 'a sync_record) list"
    using ne by (induction xs) auto
  with ne show ?thesis by (simp add: currentState_def apply_record_def)
qed

lemma currentState_apply_same:
  "currentState (apply_record ident r st) ident = Some r"
  by (simp add: currentState_def apply_record_def)

lemma handle_push [simp]: "handle (push f w j st) = handle st"
  by (simp add: push_def apply_record_def)

lemma watermark_push [simp]: "watermark (push f w j st) = watermark st"
  by (simp add: push_def apply_record_def)

lemma currentState_push_other:
  "j \<noteq> ident \<Longrightarrow> currentState (push f w j st) ident = currentState st ident"
  by (simp add: push_def currentState_apply_other)

lemma sync_identity_errors_prefix:
  "\<exists>extra. ps_errors (sync_identity p f ps j) = ps_errors ps @ extra"
  by (simp add: sync_identity_def split: option.splits)

lemma sync_identity_open_mono:
  "set (ps_open_conflicts ps) \<subseteq> set (ps_open_conflicts (sync_identity p f ps j))"
  by (auto simp: sync_identity_def split: option.splits)

lemma sync_identity_other:
  assumes "j \<noteq> ident" and "agree_on ident a (ps_stores ps)"
  shows "agree_on ident a (ps_stores (sync_identity p f ps j))"
  using assms
  by (auto simp: sync_identity_def agree_on_def list_all_iff business_state_def
        currentState_push_other split: option.splits)

lemma push_agrees:
  assumes "reachable (handle st)"
    and "\<not> (differs_from w ident st \<and> f (store_id (handle st)) ident)"
  shows "business_state (push f w ident st) ident = Some (attributes (snd w))"
  using assms
  by (auto simp: push_def business_state_def differs_from_def currentState_apply_same)

lemma sync_identity_same:
  assumes "ps_errors (sync_identity p f ps ident) = []"
    and "ident \<notin> set (ps_open_conflicts (sync_identity p f ps ident))"
  shows "\<exists>a. agree_on ident a (ps_stores (sync_identity p f ps ident))"
proof (cases "choose_winner p (ps_stores ps) ident")
  case None
  with assms(2) show ?thesis by (simp add: sync_identity_def)
next
  case (Some w)
  with assms(1) have e: "push_errors f w ident (ps_stores ps) = []"
    by (simp add: sync_identity_def)
  have "\<And>st. st \<in> set (ps_stores ps) \<Longrightarrow> reachable (handle st) \<Longrightarrow>
          \<not> (differs_from w ident st \<and> f (store_id (handle st)) ident)"
    using e by (auto simp: push_errors_def filter_empty_conv)
  then have "agree_on ident (attributes (snd w)) (map (push f w ident) (ps_stores ps))"
    by (auto simp: agree_on_def list_all_iff push_agrees)
  with Some show ?thesis by (auto simp: sync_identity_def)
qed

lemma foldl_sync_converges:
  "ident \<in> set ids \<Longrightarrow>
   ps_errors (foldl (sync_identity p f) ps ids) = [] \<Longrightarrow>
   ident \<notin> set (ps_open_conflicts (foldl (sync_identity p f) ps ids)) \<Longrightarrow>
   \<exists>a. agree_on ident a (ps_stores (foldl (sync_identity p f) ps ids))"
proof (induction ids rule: rev_induct)
  case Nil
  then show ?case by simp
next
  case (snoc j ids)
  define before where "before = foldl (sync_identity p f) ps ids"
  have step: "foldl (sync_identity p f) ps (ids @ [j]) = sync_identity p f before j"
    by (simp add: before_def)
  have e': "ps_errors (sync_identity p f before j) = []"
    using snoc.prems(2) unfolding step .
  have o': "ident \<notin> set (ps_open_conflicts (sync_identity p f before j))"
    using snoc.prems(3) unfolding step .
  show ?case
  proof (cases "j = ident")
    case True
    from e' o' have "\<exists>a. agree_on ident a (ps_stores (sync_identity p f before ident))"
      unfolding True by (rule sync_identity_same)
    then show ?thesis using step True by simp
  next
    case False
    with snoc.prems(1) have m: "ident \<in> set ids" by simp
    obtain extra where "ps_errors (sync_identity p f before j) = ps_errors before @ extra"
      using sync_identity_errors_prefix by blast
    with e' have e: "ps_errors before = []" by simp
    from sync_identity_open_mono [of before p f j] o'
    have o: "ident \<notin> set (ps_open_conflicts before)" by blast
    from snoc.IH [OF m] e o obtain a where a: "agree_on ident a (ps_stores before)"
      unfolding before_def by blast
    have "agree_on ident a (ps_stores (sync_identity p f before j))"
      using False a by (rule sync_identity_other)
    then show ?thesis using step by auto
  qed
qed


lemma changed_push_other:
  "j \<noteq> i \<Longrightarrow> changed_snapshots (map (push f w i) stores) j = changed_snapshots stores j"
proof -
  assume "j \<noteq> i"
  then have "i \<noteq> j" by simp
  then have "\<And>st. currentState (push f w i st) j = currentState st j"
    by (rule currentState_push_other)
  then show ?thesis
    by (simp add: changed_snapshots_def o_def cong: if_cong option.case_cong)
qed

lemma changed_subset_snapshots:
  "changed_snapshots stores j \<noteq> [] \<Longrightarrow> snapshots stores j \<noteq> []"
  by (induction stores)
     (auto simp: changed_snapshots_def snapshots_def split: option.splits if_splits)

lemma resolve_some:
  "p \<noteq> Manual \<Longrightarrow> snaps \<noteq> [] \<Longrightarrow> resolve p snaps \<noteq> None"
  by (cases snaps) (auto simp: resolve_def split: policy.splits option.splits)

lemma choose_winner_some:
  assumes "p \<noteq> Manual" and "changed_snapshots stores j \<noteq> []"
  shows "choose_winner p stores j \<noteq> None"
proof (cases "is_conflict (changed_snapshots stores j)")
  case True
  with resolve_some [OF assms(1) changed_subset_snapshots [OF assms(2)]]
  show ?thesis by (simp add: choose_winner_def)
next
  case False
  with assms(2) show ?thesis
    by (cases "changed_snapshots stores j") (simp_all add: choose_winner_def)
qed

lemma foldl_sync_no_open:
  "p \<noteq> Manual \<Longrightarrow> distinct ids \<Longrightarrow>
   (\<forall>j\<in>set ids. changed_snapshots (ps_stores ps) j \<noteq> []) \<Longrightarrow>
   ps_open_conflicts (foldl (sync_identity p f) ps ids) = ps_open_conflicts ps"
proof (induction ids arbitrary: ps)
  case Nil
  show ?case by simp
next
  case (Cons i ids)
  from Cons.prems have c: "changed_snapshots (ps_stores ps) i \<noteq> []" by simp
  from choose_winner_some [OF Cons.prems(1) c]
  obtain w where w: "choose_winner p (ps_stores ps) i = Some w" by blast
  define ps' where "ps' = sync_identity p f ps i"
  have st: "ps_stores ps' = map (push f w i) (ps_stores ps)"
    and op: "ps_open_conflicts ps' = ps_open_conflicts ps"
    by (simp_all add: ps'_def sync_identity_def w)
  have "\<forall>j\<in>set ids. changed_snapshots (ps_stores ps') j \<noteq> []"
  proof
    fix j assume j: "j \<in> set ids"
    with Cons.prems(2) have "j \<noteq> i" by auto
    with j Cons.prems(3) show "changed_snapshots (ps_stores ps') j \<noteq> []"
      by (simp add: st changed_push_other)
  qed
  with Cons.IH [of ps'] Cons.prems have "ps_open_conflicts (foldl (sync_identity p f) ps' ids) = ps_open_conflicts ps'"
    by simp
  with op show ?case by (simp add: ps'_def)
qed

lemma touched_changed:
  assumes "\<forall>st\<in>set stores. distinct (map fst (rows st))"
    and "j \<in> set (touched stores)"
  shows "changed_snapshots stores j \<noteq> []"
proof -
  from assms(2) obtain st r where st: "st \<in> set stores" "reachable (handle st)"
    and row: "(j, r) \<in> set (rows st)" and new: "updated_at r > watermark st"
    by (auto simp: touched_def fetchChanged_def split: if_splits)
  from assms(1) st(1) row have "map_of (rows st) j = Some r" by simp
  with st new have "(handle st, r) \<in> set (changed_snapshots stores j)"
    by (auto simp: changed_snapshots_def currentState_def intro!: bexI [of _ st])
  then show ?thesis by auto
qed


lemma sync_pass_not_failed:
  assumes "snd (sync_pass p f t stores) \<noteq> Failed"
  shows "ps_errors (fst (sync_pass p f t stores))
           = ps_errors (foldl (sync_identity p f)
               \<lparr>ps_stores = stores, ps_errors = [], ps_open_conflicts = []\<rparr> (touched stores))
       \<and> ps_open_conflicts (fst (sync_pass p f t stores))
           = ps_open_conflicts (foldl (sync_identity p f)
               \<lparr>ps_stores = stores, ps_errors = [], ps_open_conflicts = []\<rparr> (touched stores))
       \<and> ps_stores (fst (sync_pass p f t stores))
           = map (\<lambda>st. if reachable (handle st) \<and> store_id (handle st) \<notin> set (ps_errors (foldl (sync_identity p f)
                              \<lparr>ps_stores = stores, ps_errors = [], ps_open_conflicts = []\<rparr> (touched stores)))
                         then st\<lparr>watermark := t\<rparr> else st)
               (ps_stores (foldl (sync_identity p f)
                  \<lparr>ps_stores = stores, ps_errors = [], ps_open_conflicts = []\<rparr> (touched stores)))"
  using assms
  by (auto simp: sync_pass_def Let_def split: if_splits)

lemma sync_pass_success_no_errors:
  "snd (sync_pass p f t stores) = Success \<Longrightarrow> ps_errors (fst (sync_pass p f t stores)) = []"
  by (auto simp: sync_pass_def Let_def split: if_splits)

lemma sync_pass_open_conflicts:
  assumes "p \<noteq> Manual" and "\<forall>st\<in>set stores. distinct (map fst (rows st))"
  shows "ps_open_conflicts (fst (sync_pass p f t stores)) = []"
proof (cases "primary_reachable stores")
  case False
  then show ?thesis by (simp add: sync_pass_def)
next
  case True
  have "\<forall>j\<in>set (touched stores). changed_snapshots stores j \<noteq> []"
    using touched_changed [OF assms(2)] by blast
  then have "ps_open_conflicts (foldl (sync_identity p f)
               \<lparr>ps_stores = stores, ps_errors = [], ps_open_conflicts = []\<rparr> (touched stores)) = []"
    using foldl_sync_no_open [OF assms(1), of "touched stores"
            "\<lparr>ps_stores = stores, ps_errors = [], ps_open_conflicts = []\<rparr>" f]
    by (simp add: touched_def)
  with True show ?thesis by (simp add: sync_pass_def Let_def)
qed

lemma foldl_sync_open_mono:
  "set (ps_open_conflicts ps) \<subseteq> set (ps_open_conflicts (foldl (sync_identity p f) ps ids))"
proof (induction ids arbitrary: ps)
  case Nil
  show ?case by simp
next
  case (Cons i ids)
  have "set (ps_open_conflicts ps) \<subseteq> set (ps_open_conflicts (sync_identity p f ps i))"
    by (rule sync_identity_open_mono)
  also have "\<dots> \<subseteq> set (ps_open_conflicts (foldl (sync_identity p f) (sync_identity p f ps i) ids))"
    by (rule Cons.IH)
  finally show ?case by simp
qed

lemma sync_identity_states_other:
  assumes "j \<noteq> ident"
  shows "map (\<lambda>st. business_state st ident) (ps_stores (sync_identity p f ps j))
           = map (\<lambda>st. business_state st ident) (ps_stores ps)"
proof (cases "choose_winner p (ps_stores ps) j")
  case None
  then show ?thesis by (simp add: sync_identity_def)
next
  case (Some w)
  have "\<And>st. business_state (push f w j st) ident = business_state st ident"
    using assms by (simp add: business_state_def currentState_push_other)
  with Some show ?thesis by (simp add: sync_identity_def o_def)
qed

lemma sync_identity_changed_other:
  assumes "j \<noteq> ident"
  shows "changed_snapshots (ps_stores (sync_identity p f ps j)) ident
           = changed_snapshots (ps_stores ps) ident"
proof (cases "choose_winner p (ps_stores ps) j")
  case None
  then show ?thesis by (simp add: sync_identity_def)
next
  case (Some w)
  from assms have "ident \<noteq> j" by simp
  from changed_push_other [OF this] Some show ?thesis by (simp add: sync_identity_def)
qed

lemma foldl_sync_states_other:
  "ident \<notin> set ids \<Longrightarrow>
     map (\<lambda>st. business_state st ident) (ps_stores (foldl (sync_identity p f) ps ids))
       = map (\<lambda>st. business_state st ident) (ps_stores ps)"
proof (induction ids arbitrary: ps)
  case Nil
  show ?case by simp
next
  case (Cons i ids)
  from Cons.prems have ne: "i \<noteq> ident" and rest: "ident \<notin> set ids" by auto
  from Cons.IH [OF rest, of "sync_identity p f ps i"] sync_identity_states_other [OF ne, of p f ps]
  show ?case by simp
qed

lemma sync_identity_manual_conflict:
  "is_conflict (changed_snapshots (ps_stores ps) ident) \<Longrightarrow>
     sync_identity Manual f ps ident = ps\<lparr>ps_open_conflicts := ps_open_conflicts ps @ [ident]\<rparr>"
  by (simp add: sync_identity_def choose_winner_def resolve_def)

lemma foldl_sync_manual:
  "distinct ids \<Longrightarrow> ident \<in> set ids \<Longrightarrow>
   is_conflict (changed_snapshots (ps_stores ps) ident) \<Longrightarrow>
     ident \<in> set (ps_open_conflicts (foldl (sync_identity Manual f) ps ids))
     \<and> map (\<lambda>st. business_state st ident) (ps_stores (foldl (sync_identity Manual f) ps ids))
         = map (\<lambda>st. business_state st ident) (ps_stores ps)"
proof (induction ids arbitrary: ps)
  case Nil
  then show ?case by simp
next
  case (Cons i ids)
  define ps' where "ps' = sync_identity Manual f ps i"
  show ?case
  proof (cases "i = ident")
    case True
    with Cons.prems(3) have eq: "ps' = ps\<lparr>ps_open_conflicts := ps_open_conflicts ps @ [ident]\<rparr>"
      by (simp add: ps'_def sync_identity_manual_conflict)
    from True Cons.prems(1) have rest: "ident \<notin> set ids" by simp
    from eq have "ident \<in> set (ps_open_conflicts ps')" by simp
    with foldl_sync_open_mono [of ps' Manual f ids]
    have "ident \<in> set (ps_open_conflicts (foldl (sync_identity Manual f) ps' ids))" by blast
    moreover from foldl_sync_states_other [OF rest, of Manual f ps'] eq
    have "map (\<lambda>st. business_state st ident) (ps_stores (foldl (sync_identity Manual f) ps' ids))
            = map (\<lambda>st. business_state st ident) (ps_stores ps)" by simp
    ultimately show ?thesis by (simp add: ps'_def)
  next
    case False
    with Cons.prems have d: "distinct ids" and m: "ident \<in> set ids" by auto
    from False Cons.prems(3) have c: "is_conflict (changed_snapshots (ps_stores ps') ident)"
      by (simp add: ps'_def sync_identity_changed_other)
    from False have "map (\<lambda>st. business_state st ident) (ps_stores ps')
                       = map (\<lambda>st. business_state st ident) (ps_stores ps)"
      by (simp add: ps'_def sync_identity_states_other)
    with Cons.IH [OF d m c] show ?thesis by (simp add: ps'_def)
  qed
qed

lemma business_state_finalized:
  "map (\<lambda>st. business_state st ident) (map (\<lambda>st. if P st then st\<lparr>watermark := t\<rparr> else st) xs)
     = map (\<lambda>st. business_state st ident) xs"
  by (induction xs) (simp_all add: business_state_def currentState_def)

text \<open>
  Claim C1, as stated, promises equal business state in all reachable stores after every
  successful pass. In the scenario of section 8 under the \<^verbatim>\<open>manual\<close> policy the pass
  succeeds (an open conflict is not an error), registration 42 is touched, both stores
  are reachable, and the primary still holds it as confirmed while MySQL holds it as
  cancelled.
\<close>

theorem manual_policy_leaves_divergence_counterexample:
  "snd (sync_pass Manual no_failures 200 [demo_primary, demo_mysql]) = Success
   \<and> (Registrations, 42) \<in> set (touched [demo_primary, demo_mysql])
   \<and> map (\<lambda>st. reachable (handle st))
         (ps_stores (fst (sync_pass Manual no_failures 200 [demo_primary, demo_mysql])))
       = [True, True]
   \<and> map (\<lambda>st. business_state st (Registrations, 42))
         (ps_stores (fst (sync_pass Manual no_failures 200 [demo_primary, demo_mysql])))
       = [Some ''confirmed'', Some ''cancelled'']"
proof -
  have t: "touched [demo_primary, demo_mysql] = [(Registrations, 42)]"
    by (simp add: touched_def demo_primary_def demo_mysql_def fetchChanged_def)
  have "sync_pass Manual no_failures 200 [demo_primary, demo_mysql]
          = (\<lparr>ps_stores = [demo_primary\<lparr>watermark := 200\<rparr>, demo_mysql\<lparr>watermark := 200\<rparr>],
              ps_errors = [], ps_open_conflicts = [(Registrations, 42)]\<rparr>, Success)"
    by (simp add: Let_def sync_pass_def t primary_reachable_def sync_identity_def choose_winner_def
          changed_snapshots_def currentState_def is_conflict_def resolve_def snapshots_def)
       (simp add: demo_primary_def demo_mysql_def)
  with t show ?thesis
    by (simp add: business_state_def currentState_def demo_primary_def demo_mysql_def)
qed

text \<open>
  Claim C1, amended. After a sync pass that succeeded, or that failed partially only
  because some store was unreachable (no apply failed), for every identity touched by
  the pass and not left as an open conflict, all reachable stores hold the same business
  state (timestamps and origin apart). Under \<^verbatim>\<open>latest_timestamp\<close> and
  \<^verbatim>\<open>store_priority\<close>, with stores that hold one row per identity, no conflict is left
  open. Under \<^verbatim>\<open>manual\<close>, a touched identity whose changed snapshots conflict is among
  the open conflicts of the pass, and every store holds after the pass the business
  state that it held before it.
\<close>

theorem sync_pass_converges:
  assumes "snd (sync_pass p apply_fails started_at stores) = Success
           \<or> (snd (sync_pass p apply_fails started_at stores) = PartialFailure
              \<and> ps_errors (fst (sync_pass p apply_fails started_at stores)) = [])"
    and "ident \<in> set (touched stores)"
  shows "(ident \<notin> set (ps_open_conflicts (fst (sync_pass p apply_fails started_at stores))) \<longrightarrow>
           (\<exists>a. \<forall>st\<in>set (ps_stores (fst (sync_pass p apply_fails started_at stores))).
                  reachable (handle st) \<longrightarrow> business_state st ident = Some a))
       \<and> (p \<noteq> Manual \<longrightarrow> (\<forall>st\<in>set stores. distinct (map fst (rows st))) \<longrightarrow>
            ps_open_conflicts (fst (sync_pass p apply_fails started_at stores)) = [])
       \<and> (p = Manual \<longrightarrow> is_conflict (changed_snapshots stores ident) \<longrightarrow>
            ident \<in> set (ps_open_conflicts (fst (sync_pass p apply_fails started_at stores)))
            \<and> map (\<lambda>st. business_state st ident)
                  (ps_stores (fst (sync_pass p apply_fails started_at stores)))
                = map (\<lambda>st. business_state st ident) stores)"
proof (intro conjI impI)
  let ?R = "sync_pass p apply_fails started_at stores"
  let ?end = "foldl (sync_identity p apply_fails)
                \<lparr>ps_stores = stores, ps_errors = [], ps_open_conflicts = []\<rparr> (touched stores)"
  assume o: "ident \<notin> set (ps_open_conflicts (fst ?R))"
  from assms(1) have nf: "snd ?R \<noteq> Failed" by auto
  from assms(1) have e: "ps_errors (fst ?R) = []" using sync_pass_success_no_errors by blast
  note s = sync_pass_not_failed [OF nf]
  from s e have e': "ps_errors ?end = []" by simp
  from s o have o': "ident \<notin> set (ps_open_conflicts ?end)" by simp
  from foldl_sync_converges [OF assms(2) e' o']
  obtain a where a: "agree_on ident a (ps_stores ?end)" by blast
  have "\<forall>st\<in>set (ps_stores (fst ?R)). reachable (handle st) \<longrightarrow> business_state st ident = Some a"
  proof (intro ballI impI)
    fix st assume "st \<in> set (ps_stores (fst ?R))" and r: "reachable (handle st)"
    with s obtain st0 where st0: "st0 \<in> set (ps_stores ?end)"
      and eq: "st = (if reachable (handle st0) \<and> store_id (handle st0) \<notin> set (ps_errors ?end)
                     then st0\<lparr>watermark := started_at\<rparr> else st0)" by auto
    from eq r have r0: "reachable (handle st0)" by (auto split: if_splits)
    with a st0 have "business_state st0 ident = Some a" by (auto simp: agree_on_def list_all_iff)
    with eq show "business_state st ident = Some a"
      by (auto simp: business_state_def currentState_def split: if_splits)
  qed
  then show "\<exists>a. \<forall>st\<in>set (ps_stores (fst ?R)).
                  reachable (handle st) \<longrightarrow> business_state st ident = Some a" by blast
next
  assume "p \<noteq> Manual" and "\<forall>st\<in>set stores. distinct (map fst (rows st))"
  then show "ps_open_conflicts (fst (sync_pass p apply_fails started_at stores)) = []"
    by (rule sync_pass_open_conflicts)
next
  let ?R = "sync_pass p apply_fails started_at stores"
  let ?end = "foldl (sync_identity Manual apply_fails)
                \<lparr>ps_stores = stores, ps_errors = [], ps_open_conflicts = []\<rparr> (touched stores)"
  assume p: "p = Manual" and c: "is_conflict (changed_snapshots stores ident)"
  from assms(1) have nf: "snd ?R \<noteq> Failed" by auto
  note s = sync_pass_not_failed [OF nf, unfolded p]
  have d: "distinct (touched stores)" by (simp add: touched_def)
  from foldl_sync_manual [OF d assms(2), of "\<lparr>ps_stores = stores, ps_errors = [], ps_open_conflicts = []\<rparr>"
         apply_fails] c
  have o: "ident \<in> set (ps_open_conflicts ?end)"
    and k: "map (\<lambda>st. business_state st ident) (ps_stores ?end)
              = map (\<lambda>st. business_state st ident) stores"
    by simp_all
  from s o p show "ident \<in> set (ps_open_conflicts (fst ?R))" by simp
  from s p have "map (\<lambda>st. business_state st ident) (ps_stores (fst ?R))
                  = map (\<lambda>st. business_state st ident) (ps_stores ?end)"
    by (simp only: business_state_finalized)
  with k show "map (\<lambda>st. business_state st ident) (ps_stores (fst ?R))
                 = map (\<lambda>st. business_state st ident) stores" by simp
qed

theorem sync_pass_converges_witness:
  "snd (sync_pass LatestTimestamp no_failures 200 [demo_primary, demo_mysql]) = Success
   \<and> (Registrations, 42) \<in> set (touched [demo_primary, demo_mysql])
   \<and> ps_open_conflicts (fst (sync_pass LatestTimestamp no_failures 200 [demo_primary, demo_mysql])) = []
   \<and> map (\<lambda>st. business_state st (Registrations, 42))
         (ps_stores (fst (sync_pass LatestTimestamp no_failures 200 [demo_primary, demo_mysql])))
       = [Some ''cancelled'', Some ''cancelled'']
   \<and> (\<exists>a. \<forall>st\<in>set (ps_stores (fst (sync_pass LatestTimestamp no_failures 200
                                         [demo_primary, demo_mysql]))).
            reachable (handle st) \<longrightarrow> business_state st (Registrations, 42) = Some a)
   \<and> snd (sync_pass Manual no_failures 200 [demo_primary, demo_mysql]) = Success
   \<and> is_conflict (changed_snapshots [demo_primary, demo_mysql] (Registrations, 42))
   \<and> (Registrations, 42)
         \<in> set (ps_open_conflicts (fst (sync_pass Manual no_failures 200 [demo_primary, demo_mysql])))
   \<and> map (\<lambda>st. business_state st (Registrations, 42))
         (ps_stores (fst (sync_pass Manual no_failures 200 [demo_primary, demo_mysql])))
       = map (\<lambda>st. business_state st (Registrations, 42)) [demo_primary, demo_mysql]"
proof -
  have t: "touched [demo_primary, demo_mysql] = [(Registrations, 42)]"
    by (simp add: touched_def demo_primary_def demo_mysql_def fetchChanged_def)
  have c: "is_conflict (changed_snapshots [demo_primary, demo_mysql] (Registrations, 42))"
    by (simp add: changed_snapshots_def currentState_def is_conflict_def demo_primary_def
          demo_mysql_def)
  have sm: "snd (sync_pass Manual no_failures 200 [demo_primary, demo_mysql]) = Success"
    by (simp add: Let_def sync_pass_def t primary_reachable_def sync_identity_def choose_winner_def
          changed_snapshots_def currentState_def is_conflict_def resolve_def snapshots_def)
       (simp add: demo_primary_def demo_mysql_def)
  have v: "sync_pass LatestTimestamp no_failures 200 [demo_primary, demo_mysql]
          = (\<lparr>ps_stores = [demo_primary\<lparr>rows := rows demo_mysql, watermark := 200\<rparr>,
                           demo_mysql\<lparr>watermark := 200\<rparr>],
              ps_errors = [], ps_open_conflicts = []\<rparr>, Success)"
    by (simp add: Let_def sync_pass_def t primary_reachable_def sync_identity_def choose_winner_def
          changed_snapshots_def currentState_def is_conflict_def resolve_def snapshots_def)
       (simp add: demo_primary_def demo_mysql_def beats_def push_def push_errors_def
          differs_from_def no_failures_def apply_record_def currentState_def)
  have s: "snd (sync_pass LatestTimestamp no_failures 200 [demo_primary, demo_mysql]) = Success
           \<or> (snd (sync_pass LatestTimestamp no_failures 200 [demo_primary, demo_mysql]) = PartialFailure
              \<and> ps_errors (fst (sync_pass LatestTimestamp no_failures 200 [demo_primary, demo_mysql])) = [])"
    by (simp add: v)
  have m: "(Registrations, 42) \<in> set (touched [demo_primary, demo_mysql])" by (simp add: t)
  have d: "\<forall>st\<in>set [demo_primary, demo_mysql]. distinct (map fst (rows st))"
    by (simp add: demo_primary_def demo_mysql_def)
  from sync_pass_converges [OF s m] d
  have "ps_open_conflicts (fst (sync_pass LatestTimestamp no_failures 200 [demo_primary, demo_mysql])) = []"
    and "\<exists>a. \<forall>st\<in>set (ps_stores (fst (sync_pass LatestTimestamp no_failures 200
                                         [demo_primary, demo_mysql]))).
            reachable (handle st) \<longrightarrow> business_state st (Registrations, 42) = Some a"
    by simp_all
  moreover have "map (\<lambda>st. business_state st (Registrations, 42))
         (ps_stores (fst (sync_pass LatestTimestamp no_failures 200 [demo_primary, demo_mysql])))
       = [Some ''cancelled'', Some ''cancelled'']"
    unfolding v by (simp add: business_state_def currentState_def demo_primary_def demo_mysql_def)
  moreover have "snd (sync_pass LatestTimestamp no_failures 200 [demo_primary, demo_mysql]) = Success"
    unfolding v by simp
  moreover from sync_pass_converges [OF disjI1 [OF sm] m] c
  have "(Registrations, 42)
          \<in> set (ps_open_conflicts (fst (sync_pass Manual no_failures 200 [demo_primary, demo_mysql])))
        \<and> map (\<lambda>st. business_state st (Registrations, 42))
              (ps_stores (fst (sync_pass Manual no_failures 200 [demo_primary, demo_mysql])))
            = map (\<lambda>st. business_state st (Registrations, 42)) [demo_primary, demo_mysql]"
    by simp
  ultimately show ?thesis using m c sm by blast
qed


end
